theory Spec2Isabelle
  imports Complex_Main "HOL-Library.Word"
begin

unbundle bit_operations_syntax

section \<open>Single-precision floating point\<close>

text \<open>
  The sketch \<^verbatim>\<open>DSMR.ino\<close> computes with the C++ type \<^verbatim>\<open>float\<close>, IEEE 754 binary32.
  A value of that type is a finite number, one of the two infinities, or not a number.
  A finite value is given by the real number it stands for (the two zeros are one value:
  the sketch never divides by a variable, and no routine it calls tells them apart).
  Every arithmetic operation computes the exact real result and rounds it to the nearest
  binary32 number, ties to the even significand; a rounded magnitude of \<open>2 ^ 128\<close> or
  more overflows to an infinity.
\<close>

datatype float32 = Finite real | PInf | NInf | NaN

text \<open>
  The exponent of the binade of a magnitude, kept inside the range of binary32: the
  largest \<open>e\<close> from \<open>- 126\<close> to 127 with \<open>2 powi e \<le> a\<close>, and \<open>- 126\<close> below that
  (the subnormal numbers).
\<close>

definition binade :: "real \<Rightarrow> int" where
  "binade a = Max (set (- 126 # filter (\<lambda>e. 2 powi e \<le> a) [- 125 .. 127]))"

text \<open>The distance between neighbouring binary32 numbers at \<open>x\<close>: 24 bits of significand.\<close>

definition ulp :: "real \<Rightarrow> real" where
  "ulp x = 2 powi (binade \<bar>x\<bar> - 23)"

text \<open>Rounding to the nearest integer, a tie to the even neighbour.\<close>

definition rhe :: "real \<Rightarrow> int" where
  "rhe q =
     (let f = \<lfloor>q\<rfloor>; r = q - of_int f
      in if r < 1 / 2 then f else if 1 / 2 < r then f + 1 else if even f then f else f + 1)"

text \<open>Rounding a real number to the binary32 grid, and the result as a binary32 value.\<close>

definition fl32 :: "real \<Rightarrow> real" where
  "fl32 x = of_int (rhe (x / ulp x)) * ulp x"

definition rnd :: "real \<Rightarrow> float32" where
  "rnd x =
     (let y = fl32 x
      in if 2 powi 128 \<le> y then PInf else if y \<le> - (2 powi 128) then NInf else Finite y)"

definition inf_sign :: "bool \<Rightarrow> float32" where
  "inf_sign negative = (if negative then NInf else PInf)"

fun fneg :: "float32 \<Rightarrow> float32" where
  "fneg (Finite x) = Finite (- x)"
| "fneg PInf = NInf"
| "fneg NInf = PInf"
| "fneg NaN = NaN"

fun fadd :: "float32 \<Rightarrow> float32 \<Rightarrow> float32" where
  "fadd (Finite x) (Finite y) = rnd (x + y)"
| "fadd NaN b = NaN"
| "fadd a NaN = NaN"
| "fadd PInf NInf = NaN"
| "fadd NInf PInf = NaN"
| "fadd PInf b = PInf"
| "fadd a PInf = PInf"
| "fadd NInf b = NInf"
| "fadd a NInf = NInf"

definition fsub :: "float32 \<Rightarrow> float32 \<Rightarrow> float32" where
  "fsub a b = fadd a (fneg b)"

fun fmul :: "float32 \<Rightarrow> float32 \<Rightarrow> float32" where
  "fmul (Finite x) (Finite y) = rnd (x * y)"
| "fmul NaN b = NaN"
| "fmul a NaN = NaN"
| "fmul (Finite x) b = (if x = 0 then NaN else inf_sign ((x < 0) \<noteq> (b = NInf)))"
| "fmul a (Finite y) = (if y = 0 then NaN else inf_sign ((a = NInf) \<noteq> (y < 0)))"
| "fmul a b = inf_sign ((a = NInf) \<noteq> (b = NInf))"

text \<open>
  Division; the divisors of the sketch are the constants 24 and 10, the case of a zero
  divisor is given for the positive zero.
\<close>

fun fdiv :: "float32 \<Rightarrow> float32 \<Rightarrow> float32" where
  "fdiv (Finite x) (Finite y) =
     (if y = 0 then (if x = 0 then NaN else inf_sign (x < 0)) else rnd (x / y))"
| "fdiv NaN b = NaN"
| "fdiv a NaN = NaN"
| "fdiv (Finite x) b = Finite 0"
| "fdiv a (Finite y) = inf_sign ((a = NInf) \<noteq> (y < 0))"
| "fdiv a b = NaN"

text \<open>The comparisons \<^verbatim>\<open><=\<close> and \<^verbatim>\<open><\<close>: false whenever an operand is not a number.\<close>

fun fle :: "float32 \<Rightarrow> float32 \<Rightarrow> bool" where
  "fle (Finite x) (Finite y) = (x \<le> y)"
| "fle NaN b = False"
| "fle a NaN = False"
| "fle NInf b = True"
| "fle a PInf = True"
| "fle a b = False"

fun flt :: "float32 \<Rightarrow> float32 \<Rightarrow> bool" where
  "flt (Finite x) (Finite y) = (x < y)"
| "flt NaN b = False"
| "flt a NaN = False"
| "flt NInf NInf = False"
| "flt PInf PInf = False"
| "flt NInf b = True"
| "flt a PInf = True"
| "flt a b = False"

fun fabs :: "float32 \<Rightarrow> float32" where
  "fabs (Finite x) = Finite \<bar>x\<bar>"
| "fabs PInf = PInf"
| "fabs NInf = PInf"
| "fabs NaN = NaN"

section \<open>The DSMR sketch: data model\<close>

text \<open>
  The sketch keeps its state in global variables (lines 84--93 and 188). They are
  collected in one record, and every function of the sketch is a function on that
  record. An Arduino \<^verbatim>\<open>String\<close> is a sequence of bytes and is modelled as a \<open>string\<close>
  (a list of 8-bit characters), a \<^verbatim>\<open>float\<close> as a \<open>float32\<close>.
\<close>

definition MAX_POWER_CONSUMPTION :: int where
  "MAX_POWER_CONSUMPTION = 18"

definition MAX_POWER_RETURN :: int where
  "MAX_POWER_RETURN = 6"

datatype color = TFT_GREEN | TFT_RED

text \<open>
  The TCP client slot \<^verbatim>\<open>RemoteClient\<close>: whether it is connected, and the bytes written
  to it so far, in order.
\<close>

record WiFiClient =
  connected :: bool
  wire :: string

record globals =
  lastBuf :: string
  dialAngle :: int
  currentUsage :: float32
  currentUsageStr :: string
  currentColor :: color
  lastTimestamp :: string
  dayUsage :: float32
  lastDelivered :: float32
  lastReturned :: float32
  dayUsageStr :: string
  RemoteClient :: WiFiClient

text \<open>The initial values of the globals, lines 84--93; no client is connected at start.\<close>

definition init_globals :: globals where
  "init_globals =
     \<lparr>lastBuf = [], dialAngle = - 45, currentUsage = Finite 0, currentUsageStr = ''0kW'',
      currentColor = TFT_GREEN, lastTimestamp = [], dayUsage = Finite 0,
      lastDelivered = Finite (- 1), lastReturned = Finite (- 1), dayUsageStr = ''0kW'',
      RemoteClient = \<lparr>connected = False, wire = []\<rparr>\<rparr>"

section \<open>Library routines the sketch calls\<close>

text \<open>
  The routines of this section belong to the Arduino core, the C library and the
  arduino-dsmr library; their code is not part of the repository. Each is modelled by its
  documented contract.
\<close>

text \<open>
  \<^verbatim>\<open>String::charAt\<close>: the character at an index, the zero byte outside the string.
\<close>

definition charAt :: "string \<Rightarrow> nat \<Rightarrow> char" where
  "charAt s i = (if i < length s then s ! i else CHR 0x00)"

text \<open>
  \<^verbatim>\<open>String::substring(left, right)\<close>: the characters from index \<open>left\<close> up to, not
  including, index \<open>right\<close>. The two indices are swapped when \<open>left > right\<close>, the result
  is empty when \<open>left\<close> is not inside the string, and \<open>right\<close> is clamped to the length of
  the string: the routine never reads outside the string and has no way to report an error.
\<close>

definition substring :: "string \<Rightarrow> nat \<Rightarrow> nat \<Rightarrow> string" where
  "substring s left right =
     (let l = min left right; r = max left right
      in if length s \<le> l then [] else take (min r (length s) - l) (drop l s))"

text \<open>
  Modelled from the spec: \<^verbatim>\<open>_crc16_update\<close> (arduino-dsmr, \<^verbatim>\<open>crc16.h\<close>) is not in the
  sources. The spec calls it the standard CRC-16 with the reflected polynomial 0xA001: the
  byte is xor-ed into the low half of the checksum, then eight times the checksum is
  shifted right by one bit and, when the bit shifted out was set, xor-ed with 0xA001.
\<close>

fun crc16_bits :: "nat \<Rightarrow> 16 word \<Rightarrow> 16 word" where
  "crc16_bits 0 crc = crc"
| "crc16_bits (Suc i) crc =
     crc16_bits i (if crc AND 1 \<noteq> 0 then drop_bit 1 crc XOR 0xA001 else drop_bit 1 crc)"

definition crc16_update :: "16 word \<Rightarrow> char \<Rightarrow> 16 word" where
  "crc16_update crc data = crc16_bits 8 (crc XOR of_char data)"

text \<open>
  Modelled from the spec: \<^verbatim>\<open>sprintf\<close> with the format \<^verbatim>\<open>%04X\<close> is the C library's. It
  writes the number in upper-case hexadecimal with as many digits as the number needs, and
  pads with \<^verbatim>\<open>0\<close> on the left up to four characters. The sketch gives it a buffer of
  four bytes (line 269) for the four digits and the closing zero byte; the model takes the
  text that is written, the layout of memory is not represented.
\<close>

definition hex_char :: "nat \<Rightarrow> char" where
  "hex_char d = (if d < 10 then char_of (48 + d) else char_of (55 + d))"

function hex_digits :: "nat \<Rightarrow> string" where
  "hex_digits n =
     (if n < 16 then [hex_char n] else hex_digits (n div 16) @ [hex_char (n mod 16)])"
  by pat_completeness auto
termination
  by (relation "measure id") auto

declare hex_digits.simps [simp del]

definition sprintf_04X :: "16 word \<Rightarrow> string" where
  "sprintf_04X v =
     (let ds = hex_digits (unat v) in replicate (4 - length ds) (CHR ''0'') @ ds)"

text \<open>
  Modelled from the spec: \<^verbatim>\<open>round\<close> is not defined in the sources. The spec has the
  value rounded to one decimal with halves away from zero, which is what the C library's
  \<^verbatim>\<open>round\<close> does: the nearest whole number, halves away from zero, as a floating
  value (a whole number next to a binary32 number is a binary32 number, so nothing is
  rounded twice). An infinity and a value that is not a number are returned as they are.
  \<^verbatim>\<open>abs\<close> is \<open>fabs\<close> above.
\<close>

definition round_away :: "real \<Rightarrow> int" where
  "round_away x = (if 0 \<le> x then \<lfloor>x + 1 / 2\<rfloor> else \<lceil>x - 1 / 2\<rceil>)"

fun roundf :: "float32 \<Rightarrow> float32" where
  "roundf (Finite x) = Finite (of_int (round_away x))"
| "roundf a = a"

text \<open>The decimal digits of a natural number, most significant first.\<close>

function dec_digits :: "nat \<Rightarrow> string" where
  "dec_digits n =
     (if n < 10 then [char_of (48 + n)] else dec_digits (n div 10) @ [char_of (48 + n mod 10)])"
  by pat_completeness auto
termination
  by (relation "measure id") auto

declare dec_digits.simps [simp del]

text \<open>
  Modelled from the spec: \<^verbatim>\<open>dtostrf(number, width, prec, buffer)\<close> is the Arduino
  core's. It writes \<open>number\<close> as a fixed-point decimal with \<open>prec\<close> digits after the point
  (the magnitude rounded to that many digits, a minus sign in front of a negative number),
  and pads with spaces on the left up to \<open>width\<close> characters; a longer text is not cut.
  For an infinity and for a value that is not a number the core writes \<^verbatim>\<open>inf\<close> and
  \<^verbatim>\<open>nan\<close>. The routine does not know the size of the buffer: it writes the whole text
  and a closing zero byte.
\<close>

fun dtostrf :: "float32 \<Rightarrow> nat \<Rightarrow> nat \<Rightarrow> string" where
  "dtostrf (Finite number) width prec =
     (let scaled = nat \<lfloor>\<bar>number\<bar> * 10 ^ prec + 1 / 2\<rfloor>;
          ds = dec_digits (scaled mod 10 ^ prec);
          frac = (if prec = 0 then [] else CHR ''.'' # replicate (prec - length ds) (CHR ''0'') @ ds);
          body = (if number < 0 then ''-'' else []) @ dec_digits (scaled div 10 ^ prec) @ frac
      in replicate (width - length body) (CHR '' '') @ body)"
| "dtostrf NaN width prec = ''nan''"
| "dtostrf a width prec = ''inf''"

text \<open>
  The buffer that the sketch hands to \<^verbatim>\<open>dtostrf\<close> is \<^verbatim>\<open>char outstr[4]\<close> (lines 308 and
  331). A text of four or more characters overruns it with its closing zero byte. The
  model takes the text that is written and says whether it fits; what the bytes written
  past the buffer do to the neighbouring memory is not represented.
\<close>

definition outstr_size :: nat where
  "outstr_size = 4"

definition outstr_overrun :: "string \<Rightarrow> bool" where
  "outstr_overrun text \<longleftrightarrow> outstr_size < length text + 1"

text \<open>
  The conversion of a floating value to \<^verbatim>\<open>int16_t\<close> drops the fraction (truncation
  towards zero). When the whole part does not fit 16 bits, and for an infinity or a value
  that is not a number, the behaviour of the C++ program is undefined: the model has no
  result there.
\<close>

fun float_to_int16 :: "float32 \<Rightarrow> int option" where
  "float_to_int16 (Finite x) =
     (let t = (if 0 \<le> x then \<lfloor>x\<rfloor> else \<lceil>x\<rceil>)
      in if - 32768 \<le> t \<and> t \<le> 32767 then Some t else None)"
| "float_to_int16 a = None"

text \<open>
  \<^verbatim>\<open>Print::print\<close> and \<^verbatim>\<open>Print::write\<close> on the client append bytes to the wire;
  \<^verbatim>\<open>flush\<close> adds none. A write that fails is not reported to the sketch.
\<close>

definition client_print :: "string \<Rightarrow> WiFiClient \<Rightarrow> WiFiClient" where
  "client_print s c = c\<lparr>wire := wire c @ s\<rparr>"

definition client_write :: "char \<Rightarrow> WiFiClient \<Rightarrow> WiFiClient" where
  "client_write b c = c\<lparr>wire := wire c @ [b]\<rparr>"

section \<open>The TCP relay (lines 263--286)\<close>

text \<open>The loop of \<^verbatim>\<open>calculateCrc16\<close>, lines 265--267, from index \<open>i\<close> on.\<close>

function crc_loop :: "string \<Rightarrow> nat \<Rightarrow> 16 word \<Rightarrow> 16 word" where
  "crc_loop buf i crcCalc =
     (if i < length buf then crc_loop buf (Suc i) (crc16_update crcCalc (charAt buf i))
      else crcCalc)"
  by pat_completeness auto
termination
  by (relation "measure (\<lambda>(buf, i, crcCalc). length buf - i)") auto

declare crc_loop.simps [simp del]

definition calculateCrc16 :: "string \<Rightarrow> string" where
  "calculateCrc16 buf =
     (let crcCalc = crc16_update 0 (CHR ''/'');
          crcCalc = crc_loop buf 0 crcCalc;
          crcCalc = crc16_update crcCalc (CHR ''!'')
      in sprintf_04X crcCalc)"

definition sendTelegram :: "string \<Rightarrow> globals \<Rightarrow> globals" where
  "sendTelegram buf g =
     (if connected (RemoteClient g) then
        (let crc = calculateCrc16 buf;
             c = RemoteClient g;
             c = client_print ''/'' c;
             c = client_print buf c;
             c = client_print ''!'' c;
             c = client_print crc c;
             c = client_print [CHR 0x0D, CHR 0x0A] c;
             nullString = CHR 0x00;
             c = client_write nullString c
         in g\<lparr>RemoteClient := c\<rparr>)
      else g)"


section \<open>The value updaters (lines 294--340)\<close>

text \<open>
  Every operation on a \<^verbatim>\<open>float\<close> is a binary32 operation; an \<^verbatim>\<open>int\<close> constant next
  to a \<^verbatim>\<open>float\<close> is converted to it first, exactly.

  \<^verbatim>\<open>setCurrentValue\<close>, lines 294--312. The assignment of line 298 converts the
  floating angle to the \<^verbatim>\<open>int16_t\<close> variable \<^verbatim>\<open>dialAngle\<close>; where that conversion is
  undefined the call has no result. The constants 6 and 18 are the macros of lines 69--70.
\<close>

definition setCurrentValue :: "float32 \<Rightarrow> globals \<Rightarrow> globals option" where
  "setCurrentValue currentValue g =
     (case float_to_int16
             (fadd (Finite (- 90))
                (fmul (fdiv (fadd currentValue (Finite (of_int MAX_POWER_RETURN)))
                            (Finite (of_int (MAX_POWER_RETURN + MAX_POWER_CONSUMPTION))))
                      (Finite 180))) of
        None \<Rightarrow> None
      | Some angle \<Rightarrow>
          Some (g\<lparr>currentUsage := currentValue,
                  dialAngle := angle,
                  currentColor := (if flt currentValue (Finite 0) then TFT_GREEN else TFT_RED),
                  currentUsageStr :=
                    dtostrf (fabs (fdiv (roundf (fmul currentValue (Finite 10))) (Finite 10)))
                      (if fle (Finite 10) currentValue then 4 else 3) 1
                      @ ''kW''\<rparr>))"

text \<open>
  \<^verbatim>\<open>updateUsage\<close>, lines 318--340: the day boundary, the delta under the guard of line
  327 together with the text of the day total, then the two baselines.
\<close>

definition updateUsage ::
  "string \<Rightarrow> float32 \<Rightarrow> float32 \<Rightarrow> float32 \<Rightarrow> float32 \<Rightarrow> globals \<Rightarrow> globals" where
  "updateUsage timestamp del1 del2 ret1 ret2 g =
     (let currentTimestamp = substring timestamp 0 6;
          g = (if lastTimestamp g \<noteq> currentTimestamp
               then g\<lparr>lastTimestamp := currentTimestamp, dayUsage := Finite 0\<rparr> else g);
          g = (if fle (Finite 0) (lastDelivered g)
               then (let g = g\<lparr>dayUsage :=
                                 fadd (dayUsage g)
                                   (fsub (fsub (fadd del1 del2) (lastDelivered g))
                                         (fsub (fadd ret1 ret2) (lastReturned g)))\<rparr>
                     in g\<lparr>dayUsageStr :=
                            dtostrf (fdiv (roundf (fmul (dayUsage g) (Finite 10))) (Finite 10))
                              (if fle (Finite 10) (fabs (dayUsage g)) then 4 else 3) 1
                              @ ''kW''\<rparr>)
               else g)
      in g\<lparr>lastDelivered := fadd del1 del2, lastReturned := fadd ret1 ret2\<rparr>)"

text \<open>A run of the aggregator: the calls of \<^verbatim>\<open>updateUsage\<close> in the order they are made.\<close>

type_synonym reading = "string \<times> float32 \<times> float32 \<times> float32 \<times> float32"

fun updateUsage_all :: "reading list \<Rightarrow> globals \<Rightarrow> globals" where
  "updateUsage_all [] g = g"
| "updateUsage_all ((timestamp, del1, del2, ret1, ret2) # rs) g =
     updateUsage_all rs (updateUsage timestamp del1 del2 ret1 ret2 g)"

section \<open>Reference definitions\<close>

text \<open>
  The definitions of this section are not code of the sketch. They state, in the words of
  the specification, what the relay frame, the gauge angle and the gauge text are, and
  what the theorems below compare the code with.
\<close>

text \<open>The checksum of a byte sequence: the update step folded over it from 0.\<close>

definition spec_crc16 :: "string \<Rightarrow> 16 word" where
  "spec_crc16 bytes = foldl crc16_update 0 bytes"

text \<open>The four hexadecimal digits of a 16-bit value, most significant first.\<close>

definition spec_hex4 :: "16 word \<Rightarrow> string" where
  "spec_hex4 v =
     (let n = unat v
      in [hex_char (n div 4096 mod 16), hex_char (n div 256 mod 16),
          hex_char (n div 16 mod 16), hex_char (n mod 16)])"

text \<open>The value of an upper-case hexadecimal digit, to read such digits back.\<close>

definition hex_val :: "char \<Rightarrow> nat" where
  "hex_val c = (if of_char c < (65 :: nat) then of_char c - 48 else of_char c - 55)"

text \<open>The wire format of section 6 of the specification.\<close>

definition spec_frame :: "string \<Rightarrow> string" where
  "spec_frame raw =
     ''/'' @ raw @ ''!'' @ spec_hex4 (spec_crc16 (''/'' @ raw @ ''!''))
       @ [CHR 0x0D, CHR 0x0A] @ [CHR 0x00]"


text \<open>
  The angle of section 4.3 with the default calibration: as a real number, and as the
  sketch computes it, in four binary32 operations.
\<close>

definition spec_angle :: "real \<Rightarrow> real" where
  "spec_angle netPower = - 90 + ((netPower + 6) / 24) * 180"

definition angle32 :: "float32 \<Rightarrow> float32" where
  "angle32 netPower =
     fadd (Finite (- 90)) (fmul (fdiv (fadd netPower (Finite 6)) (Finite 24)) (Finite 180))"

text \<open>The text of a number of tenths: the whole part, the point, one digit.\<close>

definition fixed1 :: "nat \<Rightarrow> string" where
  "fixed1 t = dec_digits (t div 10) @ ''.'' @ dec_digits (t mod 10)"


text \<open>
  The text as the sketch arrives at it: the tenths are the binary32 product of the net
  power and 10, rounded to a whole number with halves away from zero.
\<close>

definition tenths32 :: "float32 \<Rightarrow> nat" where
  "tenths32 netPower =
     (case fmul netPower (Finite 10) of Finite p \<Rightarrow> nat \<bar>round_away p\<bar> | _ \<Rightarrow> 0)"


text \<open>
  A reading as the parser delivers it has registers that are not negative: each is an
  unsigned count of thousandths (\<^verbatim>\<open>FixedValue\<close>, lines 482--485).
\<close>

definition nonneg_registers :: "reading \<Rightarrow> bool" where
  "nonneg_registers r =
     (case r of (timestamp, del1, del2, ret1, ret2) \<Rightarrow>
        fle (Finite 0) del1 \<and> fle (Finite 0) del2 \<and> fle (Finite 0) ret1 \<and> fle (Finite 0) ret2)"

text \<open>
  The two baselines agree on being unset: by the sentinel value \<open>- 1\<close> and by the test
  of line 327.
\<close>

definition baseline_paired :: "globals \<Rightarrow> bool" where
  "baseline_paired g \<longleftrightarrow>
     (lastDelivered g = Finite (- 1) \<longleftrightarrow> lastReturned g = Finite (- 1)) \<and>
     (fle (Finite 0) (lastDelivered g) \<longleftrightarrow> fle (Finite 0) (lastReturned g))"

section \<open>Properties of the rounding\<close>

subsection \<open>binade\<close>

lemma binade_alt:
  "binade a = Max (insert (- 126) {e. - 125 \<le> e \<and> e \<le> 127 \<and> 2 powi e \<le> a})"
proof -
  have "set (- 126 # filter (\<lambda>e. 2 powi e \<le> a) [- 125 .. 127]) =
      insert (- 126) {e. - 125 \<le> e \<and> e \<le> 127 \<and> 2 powi e \<le> a}"
    by (simp only: list.set set_filter set_upto) auto
  then show ?thesis by (simp only: binade_def)
qed

lemma binade_fin: "finite (insert (- 126) {e :: int. - 125 \<le> e \<and> e \<le> 127 \<and> P e})"
proof -
  have "{e :: int. - 125 \<le> e \<and> e \<le> 127 \<and> P e} \<subseteq> {- 125 .. 127}" by auto
  then have "finite {e :: int. - 125 \<le> e \<and> e \<le> 127 \<and> P e}"
    by (rule finite_subset) simp
  then show ?thesis by simp
qed

lemma binade_in:
  "binade a = - 126 \<or> (- 125 \<le> binade a \<and> binade a \<le> 127 \<and> 2 powi binade a \<le> a)"
proof -
  let ?S = "insert (- 126) {e. - 125 \<le> e \<and> e \<le> 127 \<and> 2 powi e \<le> a}"
  have "Max ?S \<in> ?S" by (rule Max_in) (rule binade_fin, simp)
  then show ?thesis unfolding binade_alt by auto
qed

lemma binade_range: "- 126 \<le> binade a" "binade a \<le> 127"
  using binade_in [of a] by auto

lemma binade_ge: "- 126 \<le> e \<Longrightarrow> e \<le> 127 \<Longrightarrow> 2 powi e \<le> a \<Longrightarrow> e \<le> binade a"
proof -
  assume "- 126 \<le> e" "e \<le> 127" "2 powi e \<le> a"
  then have "e \<in> insert (- 126) {e. - 125 \<le> e \<and> e \<le> 127 \<and> 2 powi e \<le> a}" by auto
  then show ?thesis unfolding binade_alt by (intro Max_ge binade_fin)
qed

lemma binade_le: "2 powi (- 126) \<le> a \<Longrightarrow> 2 powi binade a \<le> a"
  using binade_in [of a] by auto

lemma binade_less: "binade a < 127 \<Longrightarrow> a < 2 powi (binade a + 1)"
proof (rule ccontr)
  assume b: "binade a < 127" and n: "\<not> a < 2 powi (binade a + 1)"
  from binade_range [of a] b n have "binade a + 1 \<le> binade a"
    by (intro binade_ge) auto
  then show False by simp
qed

lemma binade_mono: "a \<le> b \<Longrightarrow> binade a \<le> binade b"
proof -
  assume "a \<le> b"
  then have "insert (- 126) {e. - 125 \<le> e \<and> e \<le> 127 \<and> 2 powi e \<le> a}
      \<subseteq> insert (- 126) {e. - 125 \<le> e \<and> e \<le> 127 \<and> 2 powi e \<le> b}" by auto
  then show ?thesis unfolding binade_alt by (intro Max_mono binade_fin) simp_all
qed

lemma binade_eq:
  assumes "- 126 \<le> e" "e \<le> 127" "e = - 126 \<or> 2 powi e \<le> a" "e = 127 \<or> a < 2 powi (e + 1)"
  shows "binade a = e"
proof (rule antisym)
  from assms(3) show "e \<le> binade a"
  proof
    assume "e = - 126"
    then show ?thesis using binade_range(1) [of a] by simp
  next
    assume "2 powi e \<le> a"
    with assms(1,2) show ?thesis by (rule binade_ge)
  qed
  show "binade a \<le> e"
  proof (rule ccontr)
    assume "\<not> binade a \<le> e"
    then have l: "e + 1 \<le> binade a" by simp
    with assms(1) binade_in [of a] have p: "2 powi binade a \<le> a" by auto
    from l binade_range(2) [of a] assms(4) have "a < 2 powi (e + 1)" by auto
    moreover from l have "(2 :: real) powi (e + 1) \<le> 2 powi binade a"
      by (intro power_int_increasing) auto
    ultimately show False using p by simp
  qed
qed


subsection \<open>rounding to the nearest integer, ties to even\<close>

lemma rhe_cases:
  "rhe q = \<lfloor>q\<rfloor> \<and> q - of_int \<lfloor>q\<rfloor> \<le> 1 / 2 \<or> rhe q = \<lfloor>q\<rfloor> + 1 \<and> 1 / 2 \<le> q - of_int \<lfloor>q\<rfloor>"
  by (auto simp add: rhe_def Let_def)

lemma rhe_err: "\<bar>of_int (rhe q) - q\<bar> \<le> 1 / 2"
  using rhe_cases [of q] by (auto simp add: abs_le_iff)

lemma rhe_of_int: "rhe (of_int n) = n"
  by (simp add: rhe_def)

lemma rhe_ge_int: "of_int n \<le> q \<Longrightarrow> n \<le> rhe q"
proof -
  assume "of_int n \<le> q"
  then have "n \<le> \<lfloor>q\<rfloor>" by (simp add: le_floor_iff)
  with rhe_cases [of q] show ?thesis by auto
qed

lemma rhe_le_int: "q \<le> of_int n \<Longrightarrow> rhe q \<le> n"
proof -
  assume a: "q \<le> of_int n"
  show ?thesis
  proof (cases "q = of_int n")
    case True
    then show ?thesis by (simp add: rhe_of_int)
  next
    case False
    with a have "q < of_int n" by simp
    then have "\<lfloor>q\<rfloor> < n" by (simp add: floor_less_iff)
    with rhe_cases [of q] show ?thesis by auto
  qed
qed

lemma rhe_mono: "q \<le> q' \<Longrightarrow> rhe q \<le> rhe q'"
proof -
  assume a: "q \<le> q'"
  then have f: "\<lfloor>q\<rfloor> \<le> \<lfloor>q'\<rfloor>" by (rule floor_mono)
  show ?thesis
  proof (cases "\<lfloor>q\<rfloor> = \<lfloor>q'\<rfloor>")
    case True
    with a show ?thesis
      by (auto simp add: rhe_def Let_def)
  next
    case False
    with f have "\<lfloor>q\<rfloor> + 1 \<le> \<lfloor>q'\<rfloor>" by simp
    with rhe_cases [of q] rhe_cases [of q'] show ?thesis by auto
  qed
qed

lemma rhe_minus: "rhe (- q) = - rhe q"
proof (cases "q \<in> \<int>")
  case True
  then obtain n where "q = of_int n" by (auto elim: Ints_cases)
  then have "rhe (- q) = rhe (of_int (- n))" by simp
  also have "\<dots> = - n" by (rule rhe_of_int)
  finally show ?thesis using \<open>q = of_int n\<close> by (simp add: rhe_of_int)
next
  case False
  then have "q \<noteq> of_int \<lfloor>q\<rfloor>" by (metis Ints_of_int)
  then have f: "\<lfloor>- q\<rfloor> = - \<lfloor>q\<rfloor> - 1"
    by (simp add: floor_minus ceiling_altdef)
  have e: "even (- \<lfloor>q\<rfloor> - 1) \<longleftrightarrow> odd \<lfloor>q\<rfloor>" by simp
  show ?thesis
    unfolding rhe_def Let_def f e
    by (auto simp add: algebra_simps)
qed

subsection \<open>rounding to binary32\<close>

lemma ulp_pos: "0 < ulp x"
  by (simp add: ulp_def)

lemma ulp_minus: "ulp (- x) = ulp x"
  by (simp add: ulp_def)

lemma fl32_minus: "fl32 (- x) = - fl32 x"
  by (simp add: fl32_def ulp_minus rhe_minus)

lemma fl32_zero: "fl32 0 = 0"
  by (simp add: fl32_def rhe_def)

lemma fl32_nonneg: "0 \<le> x \<Longrightarrow> 0 \<le> fl32 x"
proof -
  assume "0 \<le> x"
  then have "of_int 0 \<le> x / ulp x" using ulp_pos [of x] by simp
  then have "0 \<le> rhe (x / ulp x)" by (rule rhe_ge_int)
  then show ?thesis using ulp_pos [of x] by (simp add: fl32_def)
qed

lemma fl32_nonpos: "x \<le> 0 \<Longrightarrow> fl32 x \<le> 0"
  using fl32_nonneg [of "- x"] by (simp add: fl32_minus)

lemma fl32_err: "\<bar>fl32 x - x\<bar> \<le> ulp x / 2"
proof -
  have "fl32 x - x = (of_int (rhe (x / ulp x)) - x / ulp x) * ulp x"
    using ulp_pos [of x] by (simp add: fl32_def algebra_simps)
  then have "\<bar>fl32 x - x\<bar> = \<bar>of_int (rhe (x / ulp x)) - x / ulp x\<bar> * ulp x"
    using ulp_pos [of x] by (simp add: abs_mult)
  also have "\<dots> \<le> 1 / 2 * ulp x"
    using rhe_err [of "x / ulp x"] ulp_pos [of x] by (intro mult_right_mono) simp_all
  finally show ?thesis by simp
qed

lemma fl32_eval:
  "binade \<bar>x\<bar> = e \<Longrightarrow> rhe (x / 2 powi (e - 23)) = n \<Longrightarrow> fl32 x = of_int n * 2 powi (e - 23)"
  by (simp add: fl32_def ulp_def)


lemma fl32_le_grid: "x \<le> of_int m * ulp x \<Longrightarrow> fl32 x \<le> of_int m * ulp x"
proof -
  assume "x \<le> of_int m * ulp x"
  then have "x / ulp x \<le> of_int m" using ulp_pos [of x] by (simp add: pos_divide_le_eq)
  then have "rhe (x / ulp x) \<le> m" by (rule rhe_le_int)
  then have "(of_int (rhe (x / ulp x)) :: real) \<le> of_int m" by simp
  then show ?thesis unfolding fl32_def using ulp_pos [of x] by (intro mult_right_mono) simp_all
qed

lemma fl32_ge_grid: "of_int m * ulp x \<le> x \<Longrightarrow> of_int m * ulp x \<le> fl32 x"
proof -
  assume "of_int m * ulp x \<le> x"
  then have "of_int m \<le> x / ulp x" using ulp_pos [of x] by (simp add: pos_le_divide_eq)
  then have "m \<le> rhe (x / ulp x)" by (rule rhe_ge_int)
  then have "(of_int m :: real) \<le> of_int (rhe (x / ulp x))" by simp
  then show ?thesis unfolding fl32_def using ulp_pos [of x] by (intro mult_right_mono) simp_all
qed

lemma fl32_mono_nonneg:
  assumes "0 \<le> x" "x \<le> y"
  shows "fl32 x \<le> fl32 y"
proof -
  from assms have y: "0 \<le> y" by simp
  from assms have b: "binade \<bar>x\<bar> \<le> binade \<bar>y\<bar>"
    by (intro binade_mono) simp
  show ?thesis
  proof (cases "binade \<bar>x\<bar> = binade \<bar>y\<bar>")
    case True
    then have u: "ulp x = ulp y" by (simp add: ulp_def)
    from assms(2) have "x / ulp y \<le> y / ulp y"
      using ulp_pos [of y] by (simp add: divide_right_mono)
    then have "rhe (x / ulp y) \<le> rhe (y / ulp y)" by (rule rhe_mono)
    then have "(of_int (rhe (x / ulp y)) :: real) \<le> of_int (rhe (y / ulp y))" by simp
    then show ?thesis unfolding fl32_def u
      using ulp_pos [of y] by (intro mult_right_mono) simp_all
  next
    case False
    with b have lt: "binade \<bar>x\<bar> + 1 \<le> binade \<bar>y\<bar>" by simp
    with binade_range(2) [of "\<bar>y\<bar>"] have "binade \<bar>x\<bar> < 127" by simp
    then have "\<bar>x\<bar> < 2 powi (binade \<bar>x\<bar> + 1)" by (rule binade_less)
    moreover have "(2 :: real) powi (binade \<bar>x\<bar> + 1) = of_int (2 ^ nat 24) * ulp x"
      by (simp add: ulp_def power_int_add power_int_diff)
    ultimately have "x \<le> of_int (2 ^ nat 24) * ulp x" using assms(1) by simp
    then have "fl32 x \<le> of_int (2 ^ nat 24) * ulp x" by (rule fl32_le_grid)
    then have 1: "fl32 x \<le> 2 powi (binade \<bar>x\<bar> + 1)"
      using \<open>(2 :: real) powi (binade \<bar>x\<bar> + 1) = of_int (2 ^ nat 24) * ulp x\<close> by simp
    from lt binade_range(1) [of "\<bar>x\<bar>"] binade_in [of "\<bar>y\<bar>"]
    have "2 powi binade \<bar>y\<bar> \<le> \<bar>y\<bar>" by auto
    moreover have g: "(2 :: real) powi binade \<bar>y\<bar> = of_int (2 ^ nat 23) * ulp y"
      by (simp add: ulp_def power_int_diff)
    ultimately have "of_int (2 ^ nat 23) * ulp y \<le> y" using y by simp
    then have "of_int (2 ^ nat 23) * ulp y \<le> fl32 y" by (rule fl32_ge_grid)
    with g have 2: "2 powi binade \<bar>y\<bar> \<le> fl32 y" by simp
    from lt have "(2 :: real) powi (binade \<bar>x\<bar> + 1) \<le> 2 powi binade \<bar>y\<bar>"
      by (intro power_int_increasing) simp_all
    with 1 2 show ?thesis by linarith
  qed
qed

lemma fl32_mono: "x \<le> y \<Longrightarrow> fl32 x \<le> fl32 y"
proof -
  assume a: "x \<le> y"
  consider "0 \<le> x" | "x < 0" "0 \<le> y" | "y < 0" by linarith
  then show ?thesis
  proof cases
    case 1
    with a show ?thesis by (intro fl32_mono_nonneg)
  next
    case 2
    then have "fl32 x \<le> 0" "0 \<le> fl32 y"
      by (simp_all add: fl32_nonpos fl32_nonneg)
    then show ?thesis by simp
  next
    case 3
    with a have "fl32 (- y) \<le> fl32 (- x)" by (intro fl32_mono_nonneg) simp_all
    then show ?thesis by (simp add: fl32_minus)
  qed
qed

lemma pow2_less_D: "(2 :: real) powi a < 2 powi b \<Longrightarrow> a < b"
proof (rule ccontr)
  assume l: "(2 :: real) powi a < 2 powi b" and "\<not> a < b"
  then have "b \<le> a" by simp
  then have "(2 :: real) powi b \<le> 2 powi a" by (intro power_int_increasing) simp_all
  with l show False by simp
qed

lemma fl32_exact:
  assumes "x = of_int m * 2 powi e" "\<bar>m\<bar> < 2 ^ 24" "- 149 \<le> e"
  shows "fl32 x = x"
proof (cases "m = 0")
  case True
  with assms(1) show ?thesis by (simp add: fl32_zero)
next
  case False
  let ?b = "binade \<bar>x\<bar>"
  have le: "?b - 23 \<le> e"
  proof (cases "?b = - 126")
    case True
    with assms(3) show ?thesis by simp
  next
    case b: False
    with binade_in [of "\<bar>x\<bar>"] have "2 powi ?b \<le> \<bar>x\<bar>" by auto
    also have "\<bar>x\<bar> = of_int \<bar>m\<bar> * 2 powi e"
      by (simp add: assms(1) abs_mult)
    also have "\<dots> < of_int (2 ^ 24) * 2 powi e"
      using assms(2) by (intro mult_strict_right_mono) simp_all
    also have "\<dots> = 2 powi (e + 24)"
      by (simp add: power_int_add)
    finally have "?b < e + 24"
      by (rule pow2_less_D)
    then show ?thesis by simp
  qed
  define b where "b = ?b"
  define k where "k = nat (e - (b - 23))"
  from le have k: "e = (b - 23) + int k" by (simp add: k_def b_def)
  have u: "ulp x = 2 powi (b - 23)" by (simp add: ulp_def b_def)
  have p: "(2 :: real) powi e = 2 ^ k * 2 powi (b - 23)"
    by (subst k) (simp add: power_int_add mult.commute)
  have x: "x = of_int m * (2 ^ k * 2 powi (b - 23))"
    by (simp only: assms(1) p)
  have "x / ulp x = x / 2 powi (b - 23)" by (simp only: u)
  also have "\<dots> = of_int (m * 2 ^ k)"
    by (subst x) simp
  finally have "x / ulp x = of_int (m * 2 ^ k)" .
  then have "rhe (x / ulp x) = m * 2 ^ k"
    by (simp only: rhe_of_int)
  then have "fl32 x = of_int (m * 2 ^ k) * ulp x"
    by (simp only: fl32_def)
  also have "\<dots> = of_int m * (2 ^ k * 2 powi (b - 23))"
    by (simp add: u)
  finally show ?thesis by (simp only: x)
qed

lemma rnd_exact:
  assumes "x = of_int m * 2 powi e" "\<bar>m\<bar> < 2 ^ 24" "- 149 \<le> e" "\<bar>x\<bar> < 2 powi 128"
  shows "rnd x = Finite x"
  using assms(4) by (simp add: rnd_def fl32_exact [OF assms(1-3)] abs_less_iff not_le)

lemma rnd_int: "\<bar>n\<bar> < 2 ^ 24 \<Longrightarrow> rnd (of_int n) = Finite (of_int n)"
proof -
  assume a: "\<bar>n\<bar> < 2 ^ 24"
  then have "\<bar>real_of_int n\<bar> < 2 ^ 24"
    by (metis of_int_abs of_int_less_iff of_int_numeral of_int_power)
  also have "\<dots> < 2 powi 128" by simp
  finally show ?thesis
    using a by (intro rnd_exact [of _ n 0]) simp_all
qed

lemma rhe_near: "\<bar>q - of_int m\<bar> < 1 / 2 \<or> (\<bar>q - of_int m\<bar> = 1 / 2 \<and> even m) \<Longrightarrow> rhe q = m"
proof -
  assume a: "\<bar>q - of_int m\<bar> < 1 / 2 \<or> (\<bar>q - of_int m\<bar> = 1 / 2 \<and> even m)"
  show ?thesis
  proof (cases "of_int m \<le> q")
    case True
    with a have "\<lfloor>q\<rfloor> = m" by (intro floor_unique) (auto simp add: abs_if split: if_splits)
    with a True show ?thesis by (auto simp add: rhe_def Let_def abs_if split: if_splits)
  next
    case False
    with a have "\<lfloor>q\<rfloor> = m - 1" by (intro floor_unique) (auto simp add: abs_if split: if_splits)
    with a False show ?thesis by (auto simp add: rhe_def Let_def abs_if split: if_splits)
  qed
qed

lemma rnd_near:
  assumes y: "y = of_int m * 2 powi e" and m: "2 ^ 23 < \<bar>m\<bar>" "\<bar>m\<bar> < 2 ^ 24"
    and e: "- 149 \<le> e" "e \<le> 104"
    and d: "\<bar>x - y\<bar> < 2 powi e / 2 \<or> (\<bar>x - y\<bar> = 2 powi e / 2 \<and> even m)"
  shows "rnd x = Finite y"
proof -
  have p: "(0 :: real) < 2 powi e" by simp
  from d have dl: "\<bar>x - y\<bar> \<le> 2 powi e / 2" by auto
  have ay: "\<bar>y\<bar> = of_int \<bar>m\<bar> * 2 powi e" by (simp add: y abs_mult)
  from m(1) have "2 ^ 23 + 1 \<le> \<bar>m\<bar>" by simp
  then have "(of_int (2 ^ 23 + 1) :: real) \<le> of_int \<bar>m\<bar>" by (simp only: of_int_le_iff)
  then have "of_int (2 ^ 23 + 1) * 2 powi e \<le> \<bar>y\<bar>"
    unfolding ay using p by (intro mult_right_mono) simp_all
  then have lo: "2 ^ 23 * 2 powi e + 2 powi e \<le> \<bar>y\<bar>" by (simp add: algebra_simps)
  from m(2) have "\<bar>m\<bar> \<le> 2 ^ 24 - 1" by simp
  then have "(of_int \<bar>m\<bar> :: real) \<le> of_int (2 ^ 24 - 1)" by (simp only: of_int_le_iff)
  then have "\<bar>y\<bar> \<le> of_int (2 ^ 24 - 1) * 2 powi e"
    unfolding ay using p by (intro mult_right_mono) simp_all
  then have hi: "\<bar>y\<bar> \<le> 2 ^ 24 * 2 powi e - 2 powi e" by (simp add: algebra_simps)
  have g23: "(2 :: real) powi (e + 23) = 2 ^ 23 * 2 powi e"
    by (simp add: power_int_add)
  have g24: "(2 :: real) powi (e + 23 + 1) = 2 ^ 24 * 2 powi e"
    by (simp add: power_int_add)
  have "2 powi (e + 23) \<le> \<bar>x\<bar>" unfolding g23 using lo dl p by linarith
  moreover have "\<bar>x\<bar> < 2 powi (e + 23 + 1)" unfolding g24 using hi dl p by linarith
  ultimately have "binade \<bar>x\<bar> = e + 23"
    using e by (intro binade_eq) simp_all
  then have u: "ulp x = 2 powi e" by (simp add: ulp_def)
  have "x / 2 powi e - of_int m = (x - y) / 2 powi e"
    by (simp add: y field_simps)
  then have "\<bar>x / 2 powi e - of_int m\<bar> = \<bar>x - y\<bar> / 2 powi e"
    by (simp add: abs_divide)
  with d p have "\<bar>x / 2 powi e - of_int m\<bar> < 1 / 2 \<or> (\<bar>x / 2 powi e - of_int m\<bar> = 1 / 2 \<and> even m)"
    by (auto simp add: field_simps)
  then have "rhe (x / 2 powi e) = m" by (rule rhe_near)
  then have f: "fl32 x = y" by (simp add: fl32_def u y)
  have "\<bar>y\<bar> < 2 ^ 24 * 2 powi e" using hi p by linarith
  also have "\<dots> = 2 powi (e + 24)" by (simp add: power_int_add)
  also have "\<dots> \<le> 2 powi 128" using e by (intro power_int_increasing) simp_all
  finally show ?thesis by (simp add: rnd_def f abs_less_iff not_le)
qed

subsection \<open>the operations\<close>

lemma rnd_not_nan [simp]: "rnd x \<noteq> NaN"
  by (simp add: rnd_def Let_def)

lemma fle_rnd_inf [simp]: "fle (rnd x) PInf" "fle NInf (rnd x)"
  by (simp_all add: rnd_def Let_def)

lemma rnd_mono: "x \<le> y \<Longrightarrow> fle (rnd x) (rnd y)"
proof -
  assume "x \<le> y"
  then have "fl32 x \<le> fl32 y" by (rule fl32_mono)
  moreover have "(0 :: real) < 2 powi 128" by simp
  ultimately show ?thesis
    by (auto simp add: rnd_def Let_def)
qed

lemma fadd_right_mono: "fle a b \<Longrightarrow> fle (fadd a (Finite c)) (fadd b (Finite c))"
  by (cases a; cases b) (simp_all add: rnd_mono)

lemma fadd_left_mono: "fle a b \<Longrightarrow> fle (fadd (Finite c) a) (fadd (Finite c) b)"
  by (cases a; cases b) (simp_all add: rnd_mono)

lemma fdiv_right_mono: "0 < c \<Longrightarrow> fle a b \<Longrightarrow> fle (fdiv a (Finite c)) (fdiv b (Finite c))"
  by (cases a; cases b) (simp_all add: rnd_mono divide_right_mono inf_sign_def)

lemma fmul_right_mono: "0 < c \<Longrightarrow> fle a b \<Longrightarrow> fle (fmul a (Finite c)) (fmul b (Finite c))"
  by (cases a; cases b) (simp_all add: rnd_mono mult_right_mono inf_sign_def)

lemma float_to_int16_mono:
  assumes "fle a b" "float_to_int16 a = Some i" "float_to_int16 b = Some j"
  shows "i \<le> j"
proof -
  from assms(2) obtain x where a: "a = Finite x" by (cases a) auto
  from assms(3) obtain y where b: "b = Finite y" by (cases b) auto
  from assms(1) a b have le: "x \<le> y" by simp
  from assms(2) a have i: "i = (if 0 \<le> x then \<lfloor>x\<rfloor> else \<lceil>x\<rceil>)"
    by (auto simp add: Let_def split: if_splits)
  from assms(3) b have j: "j = (if 0 \<le> y then \<lfloor>y\<rfloor> else \<lceil>y\<rceil>)"
    by (auto simp add: Let_def split: if_splits)
  show ?thesis
  proof (cases "0 \<le> x")
    case True
    with le have "0 \<le> y" by simp
    with True i j le show ?thesis by (simp add: floor_mono)
  next
    case False
    show ?thesis
    proof (cases "0 \<le> y")
      case True
      from False i have "i \<le> 0" by simp
      moreover from True j have "0 \<le> j" by simp
      ultimately show ?thesis by linarith
    next
      case y: False
      with False i j le show ?thesis by (simp add: ceiling_mono)
    qed
  qed
qed

section \<open>The relay\<close>

subsection \<open>The checksum loop and the hexadecimal digits\<close>

lemma crc_loop_foldl: "crc_loop buf i c = foldl crc16_update c (drop i buf)"
proof (induction buf i c rule: crc_loop.induct)
  case (1 buf i crcCalc)
  show ?case
  proof (cases "i < length buf")
    case True
    then have "drop i buf = buf ! i # drop (Suc i) buf"
      by (simp add: Cons_nth_drop_Suc)
    with True 1 show ?thesis
      by (subst crc_loop.simps) (simp add: charAt_def)
  next
    case False
    then show ?thesis
      by (subst crc_loop.simps) simp
  qed
qed

lemma hex_digits_1: "n < 16 \<Longrightarrow> hex_digits n = [hex_char n]"
  by (subst hex_digits.simps) simp

lemma hex_digits_step:
  "16 \<le> n \<Longrightarrow> hex_digits n = hex_digits (n div 16) @ [hex_char (n mod 16)]"
  by (subst hex_digits.simps) simp

lemma hex_char_0: "hex_char 0 = CHR ''0''"
  by code_simp

lemma replicate_small: "replicate 3 c = [c, c, c]" "replicate 2 c = [c, c]"
  by (simp_all add: numeral_eq_Suc)

lemma sprintf_04X_nat:
  assumes "n < 65536"
  shows "replicate (4 - length (hex_digits n)) (CHR ''0'') @ hex_digits n =
         [hex_char (n div 4096 mod 16), hex_char (n div 256 mod 16),
          hex_char (n div 16 mod 16), hex_char (n mod 16)]"
proof -
  consider "n < 16" | "16 \<le> n" "n < 256" | "256 \<le> n" "n < 4096" | "4096 \<le> n"
    by linarith
  then show ?thesis
  proof cases
    case 1
    then show ?thesis
      by (simp add: hex_digits_1 hex_char_0 replicate_small)
  next
    case 2
    then have a: "n div 16 < 16" by simp
    from 2 have b: "n div 256 = 0" "n div 4096 = 0" by simp_all
    from 2 a show ?thesis
      by (simp add: hex_digits_step hex_digits_1 hex_char_0 b replicate_small)
  next
    case 3
    then have a: "16 \<le> n div 16" "n div 16 div 16 < 16" "16 \<le> n" by simp_all
    have c: "n div 16 div 16 = n div 256" by (simp add: div_mult2_eq)
    from 3 have b: "n div 4096 = 0" by simp
    from 3 a show ?thesis
      by (simp add: hex_digits_step hex_digits_1 hex_char_0 b c replicate_small)
  next
    case 4
    with assms have a: "16 \<le> n div 16" "16 \<le> n div 16 div 16"
      "n div 16 div 16 div 16 < 16" "16 \<le> n"
      by simp_all
    have c: "n div 16 div 16 = n div 256" "n div 16 div 16 div 16 = n div 4096"
      "n div 256 div 16 = n div 4096"
      by (simp_all add: div_mult2_eq)
    from assms have d: "n div 4096 mod 16 = n div 4096" by simp
    from 4 a show ?thesis
      by (simp add: hex_digits_step hex_digits_1 c d)
  qed
qed

lemma sprintf_04X_spec: "sprintf_04X v = spec_hex4 v"
proof -
  have "unat v < 65536"
    using unsigned_less [of v, where 'a = nat] by simp
  then show ?thesis
    by (simp add: sprintf_04X_def spec_hex4_def Let_def sprintf_04X_nat)
qed

text \<open>
  The four characters are upper-case hexadecimal digits, and read as a number in base 16
  they give the value back.
\<close>

lemma hex_char_table:
  "\<forall>d \<in> set [0 ..< 16]. hex_char d \<in> set ''0123456789ABCDEF'' \<and> hex_val (hex_char d) = d"
  by code_simp

lemma hex_char_upper:
  assumes "d < 16"
  shows "hex_char d \<in> set ''0123456789ABCDEF''" and "hex_val (hex_char d) = d"
proof -
  from assms have "d \<in> set [0 ..< 16]" by simp
  with hex_char_table show "hex_char d \<in> set ''0123456789ABCDEF''" and "hex_val (hex_char d) = d"
    by blast+
qed

lemma nibbles:
  assumes "n < 65536"
  shows "((n div 4096 mod 16 * 16 + n div 256 mod 16) * 16 + n div 16 mod 16) * 16 + n mod 16
           = (n::nat)"
proof -
  have a: "n div 16 * 16 + n mod 16 = n" by simp
  have "n div 256 = n div 16 div 16" by (simp add: div_mult2_eq)
  then have b: "n div 256 * 16 + n div 16 mod 16 = n div 16"
    by (simp only: div_mult_mod_eq)
  have "n div 4096 = n div 256 div 16" by (simp add: div_mult2_eq)
  then have c: "n div 4096 * 16 + n div 256 mod 16 = n div 256"
    by (simp only: div_mult_mod_eq)
  from assms have d: "n div 4096 mod 16 = n div 4096" by simp
  show ?thesis unfolding d c b a ..
qed

lemma spec_hex4_value:
  "length (spec_hex4 v) = 4 \<and> set (spec_hex4 v) \<subseteq> set ''0123456789ABCDEF'' \<and>
   foldl (\<lambda>a c. a * 16 + hex_val c) 0 (spec_hex4 v) = unat v"
proof -
  have n: "unat v < 65536"
    using unsigned_less [of v, where 'a = nat] by simp
  have m: "unat v div 4096 mod 16 < 16" "unat v div 256 mod 16 < 16" "unat v div 16 mod 16 < 16"
    "unat v mod 16 < 16" by simp_all
  have "length (spec_hex4 v) = 4"
    by (simp add: spec_hex4_def Let_def)
  moreover have "set (spec_hex4 v) \<subseteq> set ''0123456789ABCDEF''"
    using m [THEN hex_char_upper(1)] unfolding spec_hex4_def Let_def by (simp only: list.set) blast
  moreover have "foldl (\<lambda>a c. a * 16 + hex_val c) 0 (spec_hex4 v) = unat v"
    unfolding spec_hex4_def Let_def
    by (simp only: foldl.simps m [THEN hex_char_upper(2)] nibbles [OF n] mult_zero_left add_0)
  ultimately show ?thesis by blast
qed

lemma calculateCrc16_spec:
  "calculateCrc16 buf = spec_hex4 (spec_crc16 (''/'' @ buf @ ''!''))"
  by (simp add: calculateCrc16_def spec_crc16_def crc_loop_foldl sprintf_04X_spec)

text \<open>
  The update step agrees with the published check value of this CRC-16 (0xBB3D for the
  nine digits), and a small frame worked out in full.
\<close>

lemma spec_crc16_check: "spec_crc16 ''123456789'' = 0xBB3D"
  by code_simp

lemma spec_frame_abc: "spec_frame ''abc'' = ''/abc!0C83'' @ [CHR 0x0D, CHR 0x0A, CHR 0x00]"
  by code_simp

subsection \<open>The frame on the wire\<close>

text \<open>
  Claim C1. For every raw payload, when a consumer is attached, \<^verbatim>\<open>sendTelegram\<close>
  appends to the wire exactly the bytes \<open>/\<close>, the payload, \<open>!\<close>, the four upper-case
  hexadecimal digits of the CRC-16 (reflected polynomial 0xA001, start value 0) of
  \<open>/\<close>, payload and \<open>!\<close> together, then CR, LF and one zero byte; nothing else of the
  state changes.
\<close>

theorem sendTelegram_frame:
  "connected (RemoteClient g) \<Longrightarrow>
   sendTelegram raw g =
     g\<lparr>RemoteClient := (RemoteClient g)\<lparr>wire := wire (RemoteClient g) @ spec_frame raw\<rparr>\<rparr>"
  by (simp add: sendTelegram_def Let_def client_print_def client_write_def
      calculateCrc16_spec spec_frame_def)

theorem sendTelegram_frame_witness:
  "connected (RemoteClient (init_globals\<lparr>RemoteClient := \<lparr>connected = True, wire = []\<rparr>\<rparr>)) \<and>
   wire (RemoteClient (sendTelegram ''abc''
       (init_globals\<lparr>RemoteClient := \<lparr>connected = True, wire = []\<rparr>\<rparr>))) =
     ''/abc!0C83'' @ [CHR 0x0D, CHR 0x0A, CHR 0x00]"
  using sendTelegram_frame
    [of "init_globals\<lparr>RemoteClient := \<lparr>connected = True, wire = []\<rparr>\<rparr>" "''abc''"]
  by (simp add: spec_frame_abc)

text \<open>
  Claim C8. For every raw payload, \<^verbatim>\<open>sendTelegram\<close> with no consumer attached returns
  the state it was given: no byte is written and no variable changes. The function has no
  error to raise.
\<close>

theorem sendTelegram_no_consumer:
  "\<not> connected (RemoteClient g) \<Longrightarrow> sendTelegram raw g = g"
  by (simp add: sendTelegram_def)

theorem sendTelegram_no_consumer_witness:
  "\<not> connected (RemoteClient init_globals) \<and> sendTelegram ''abc'' init_globals = init_globals"
  using sendTelegram_no_consumer [of init_globals "''abc''"]
  by (simp add: init_globals_def)


section \<open>The usage aggregator\<close>

lemma substring_0_6: "substring s 0 6 = take 6 s"
  by (cases s) (simp_all add: substring_def Let_def min_def)

lemma updateUsage_dayUsage:
  "dayUsage (updateUsage timestamp del1 del2 ret1 ret2 g) =
     (if fle (Finite 0) (lastDelivered g)
      then fadd (if lastTimestamp g \<noteq> substring timestamp 0 6 then Finite 0 else dayUsage g)
             (fsub (fsub (fadd del1 del2) (lastDelivered g))
                   (fsub (fadd ret1 ret2) (lastReturned g)))
      else (if lastTimestamp g \<noteq> substring timestamp 0 6 then Finite 0 else dayUsage g))"
  by (simp add: updateUsage_def Let_def)

lemma updateUsage_fields:
  "lastTimestamp (updateUsage timestamp del1 del2 ret1 ret2 g) = substring timestamp 0 6"
  "lastDelivered (updateUsage timestamp del1 del2 ret1 ret2 g) = fadd del1 del2"
  "lastReturned (updateUsage timestamp del1 del2 ret1 ret2 g) = fadd ret1 ret2"
  by (simp_all add: updateUsage_def Let_def)

lemma init_fields:
  "lastTimestamp init_globals = []" "dayUsage init_globals = Finite 0"
  "lastDelivered init_globals = Finite (- 1)" "lastReturned init_globals = Finite (- 1)"
  by (simp_all add: init_globals_def)

text \<open>The binary32 sums and differences that the examples below need.\<close>

lemmas float_simps = fadd.simps fmul.simps fdiv.simps

lemma usage_arith:
  shows "fadd (Finite 1234) (Finite 5678) = Finite 6912"
    and "fadd (Finite 12) (Finite 34) = Finite 46"
    and "fadd (Finite 3) (Finite 2) = Finite 5"
    and "fadd (Finite 0) (Finite 0) = Finite 0"
    and "fadd (Finite 4) (Finite (5 / 2)) = Finite (13 / 2)"
    and "fadd (Finite (1 / 4)) (Finite (1 / 4)) = Finite (1 / 2)"
    and "fsub (Finite (13 / 2)) (Finite 5) = Finite (3 / 2)"
    and "fsub (Finite (1 / 2)) (Finite 0) = Finite (1 / 2)"
    and "fsub (Finite (3 / 2)) (Finite (1 / 2)) = Finite 1"
    and "fadd (Finite 0) (Finite 1) = Finite 1"
    and "fadd (Finite (6320987 / 512)) (Finite (3002469 / 128)) = Finite (1145679 / 32)"
    and "fadd (Finite (12641975 / 1024)) (Finite (3002469 / 128)) = Finite (1145679 / 32)"
    and "fsub (Finite (1145679 / 32)) (Finite (1145679 / 32)) = Finite 0"
    and "fsub (Finite 0) (Finite 0) = Finite 0"
    and "fadd (Finite 1) (Finite 0) = Finite 1"
    and "fadd (Finite 5) (Finite 0) = Finite 5"
    and "fsub (Finite 5) (Finite 1) = Finite 4"
    and "fsub (Finite 4) (Finite 0) = Finite 4"
    and "fadd (Finite 0) (Finite 4) = Finite 4"
    and "fadd (Finite 6) (Finite 0) = Finite 6"
    and "fsub (Finite 1) (Finite 0) = Finite 1"
    and "fsub (Finite 0) (Finite 6) = Finite (- 6)"
    and "fsub (Finite 1) (Finite (- 6)) = Finite 7"
    and "fadd (Finite 0) (Finite 7) = Finite 7"
    and "fadd (Finite 1) (Finite 1) = Finite 2"
    and "fadd (Finite 2) (Finite 1) = Finite 3"
    and "fsub (Finite 3) (Finite 2) = Finite 1"
    and "fsub (Finite 3) (Finite 3) = Finite 0"
    and "fadd (Finite 7) (Finite 0) = Finite 7"
    and "fsub (Finite 7) (Finite 2) = Finite 5"
    and "fsub (Finite 5) (Finite 0) = Finite 5"
    and "fadd (Finite 0) (Finite 5) = Finite 5"
    and "fsub (Finite 1) (Finite 1) = Finite 0"
proof -
  show "fadd (Finite 1234) (Finite 5678) = Finite 6912"
    by (simp add: fsub_def) (rule rnd_exact [of _ 27 8], simp_all)
  show "fadd (Finite 12) (Finite 34) = Finite 46"
    by (simp add: fsub_def) (rule rnd_exact [of _ 23 1], simp_all)
  show "fadd (Finite 3) (Finite 2) = Finite 5"
    by (simp add: fsub_def) (rule rnd_exact [of _ 5 0], simp_all)
  show "fadd (Finite 0) (Finite 0) = Finite 0"
    by (simp add: fsub_def) (rule rnd_exact [of _ 0 0], simp_all)
  show "fadd (Finite 4) (Finite (5 / 2)) = Finite (13 / 2)"
    by (simp add: fsub_def) (rule rnd_exact [of _ 13 "- 1"], simp_all)
  show "fadd (Finite (1 / 4)) (Finite (1 / 4)) = Finite (1 / 2)"
    by (simp add: fsub_def) (rule rnd_exact [of _ 1 "- 1"], simp_all)
  show "fsub (Finite (13 / 2)) (Finite 5) = Finite (3 / 2)"
    by (simp add: fsub_def) (rule rnd_exact [of _ 3 "- 1"], simp_all)
  show "fsub (Finite (1 / 2)) (Finite 0) = Finite (1 / 2)"
    by (simp add: fsub_def) (rule rnd_exact [of _ 1 "- 1"], simp_all)
  show "fsub (Finite (3 / 2)) (Finite (1 / 2)) = Finite 1"
    by (simp add: fsub_def) (rule rnd_exact [of _ 1 0], simp_all)
  show "fadd (Finite 0) (Finite 1) = Finite 1"
    by (simp add: fsub_def) (rule rnd_exact [of _ 1 0], simp_all)
  show "fadd (Finite (6320987 / 512)) (Finite (3002469 / 128)) = Finite (1145679 / 32)"
    by (simp add: fsub_def) (rule rnd_near [of _ 9165432 "- 8"], simp_all)
  show "fadd (Finite (12641975 / 1024)) (Finite (3002469 / 128)) = Finite (1145679 / 32)"
    by (simp add: fsub_def) (rule rnd_near [of _ 9165432 "- 8"], simp_all)
  show "fsub (Finite (1145679 / 32)) (Finite (1145679 / 32)) = Finite 0"
    by (simp add: fsub_def) (rule rnd_exact [of _ 0 0], simp_all)
  show "fsub (Finite 0) (Finite 0) = Finite 0"
    by (simp add: fsub_def) (rule rnd_exact [of _ 0 0], simp_all)
  show "fadd (Finite 1) (Finite 0) = Finite 1"
    by (simp add: fsub_def) (rule rnd_exact [of _ 1 0], simp_all)
  show "fadd (Finite 5) (Finite 0) = Finite 5"
    by (simp add: fsub_def) (rule rnd_exact [of _ 5 0], simp_all)
  show "fsub (Finite 5) (Finite 1) = Finite 4"
    by (simp add: fsub_def) (rule rnd_exact [of _ 1 2], simp_all)
  show "fsub (Finite 4) (Finite 0) = Finite 4"
    by (simp add: fsub_def) (rule rnd_exact [of _ 1 2], simp_all)
  show "fadd (Finite 0) (Finite 4) = Finite 4"
    by (simp add: fsub_def) (rule rnd_exact [of _ 1 2], simp_all)
  show "fadd (Finite 6) (Finite 0) = Finite 6"
    by (simp add: fsub_def) (rule rnd_exact [of _ 3 1], simp_all)
  show "fsub (Finite 1) (Finite 0) = Finite 1"
    by (simp add: fsub_def) (rule rnd_exact [of _ 1 0], simp_all)
  show "fsub (Finite 0) (Finite 6) = Finite (- 6)"
    by (simp add: fsub_def) (rule rnd_exact [of _ "- 3" 1], simp_all)
  show "fsub (Finite 1) (Finite (- 6)) = Finite 7"
    by (simp add: fsub_def) (rule rnd_exact [of _ 7 0], simp_all)
  show "fadd (Finite 0) (Finite 7) = Finite 7"
    by (simp add: fsub_def) (rule rnd_exact [of _ 7 0], simp_all)
  show "fadd (Finite 1) (Finite 1) = Finite 2"
    by (simp add: fsub_def) (rule rnd_exact [of _ 1 1], simp_all)
  show "fadd (Finite 2) (Finite 1) = Finite 3"
    by (simp add: fsub_def) (rule rnd_exact [of _ 3 0], simp_all)
  show "fsub (Finite 3) (Finite 2) = Finite 1"
    by (simp add: fsub_def) (rule rnd_exact [of _ 1 0], simp_all)
  show "fsub (Finite 3) (Finite 3) = Finite 0"
    by (simp add: fsub_def) (rule rnd_exact [of _ 0 0], simp_all)
  show "fadd (Finite 7) (Finite 0) = Finite 7"
    by (simp add: fsub_def) (rule rnd_exact [of _ 7 0], simp_all)
  show "fsub (Finite 7) (Finite 2) = Finite 5"
    by (simp add: fsub_def) (rule rnd_exact [of _ 5 0], simp_all)
  show "fsub (Finite 5) (Finite 0) = Finite 5"
    by (simp add: fsub_def) (rule rnd_exact [of _ 5 0], simp_all)
  show "fadd (Finite 0) (Finite 5) = Finite 5"
    by (simp add: fsub_def) (rule rnd_exact [of _ 5 0], simp_all)
  show "fsub (Finite 1) (Finite 1) = Finite 0"
    by (simp add: fsub_def) (rule rnd_exact [of _ 0 0], simp_all)
qed

subsection \<open>The first call\<close>

text \<open>
  Claim C4. For every timestamp and all register values, the first call of
  \<^verbatim>\<open>updateUsage\<close> after initialisation (the day total is 0 and the delivered baseline
  still holds the sentinel \<open>- 1\<close>) leaves the day total at 0: no delta is applied, the
  call only records the two register sums as the baseline.
\<close>

theorem updateUsage_first_call:
  assumes "dayUsage g = Finite 0" and "lastDelivered g = Finite (- 1)"
  shows "dayUsage (updateUsage timestamp del1 del2 ret1 ret2 g) = Finite 0 \<and>
         lastDelivered (updateUsage timestamp del1 del2 ret1 ret2 g) = fadd del1 del2 \<and>
         lastReturned (updateUsage timestamp del1 del2 ret1 ret2 g) = fadd ret1 ret2"
  using assms by (simp add: updateUsage_dayUsage updateUsage_fields)

theorem updateUsage_first_call_witness:
  "dayUsage init_globals = Finite 0 \<and> lastDelivered init_globals = Finite (- 1) \<and>
   dayUsage (updateUsage ''200101120000'' (Finite 1234) (Finite 5678) (Finite 12) (Finite 34)
              init_globals) = Finite 0 \<and>
   lastDelivered (updateUsage ''200101120000'' (Finite 1234) (Finite 5678) (Finite 12) (Finite 34)
              init_globals) = Finite 6912 \<and>
   lastReturned (updateUsage ''200101120000'' (Finite 1234) (Finite 5678) (Finite 12) (Finite 34)
              init_globals) = Finite 46"
  using updateUsage_first_call
    [of init_globals "''200101120000''" "Finite 1234" "Finite 5678" "Finite 12" "Finite 34"]
  by (simp add: init_fields usage_arith del: float_simps)

subsection \<open>The delta\<close>

text \<open>
  The day total does not grow by the real-number value of the delta. With the baseline
  35802.46875 (the binary32 sum of the registers 12345.678 and 23456.789) set by a first
  call, a second call on the same day with the registers 12345.679 and 23456.789 leaves
  the day total at 0: the two register sums round to the same binary32 number. The
  expression of the claim, taken over the real numbers at these values, is \<open>- 1 / 1024\<close>.
\<close>

theorem updateUsage_delta_counterexample:
  "lastDelivered (updateUsage ''200101120000'' (Finite (6320987 / 512)) (Finite (3002469 / 128))
      (Finite 0) (Finite 0) init_globals) = Finite (1145679 / 32) \<and>
   lastReturned (updateUsage ''200101120000'' (Finite (6320987 / 512)) (Finite (3002469 / 128))
      (Finite 0) (Finite 0) init_globals) = Finite 0 \<and>
   dayUsage (updateUsage ''200101120000'' (Finite (6320987 / 512)) (Finite (3002469 / 128))
      (Finite 0) (Finite 0) init_globals) = Finite 0 \<and>
   dayUsage (updateUsage ''200101120010'' (Finite (12641975 / 1024)) (Finite (3002469 / 128))
      (Finite 0) (Finite 0)
      (updateUsage ''200101120000'' (Finite (6320987 / 512)) (Finite (3002469 / 128))
         (Finite 0) (Finite 0) init_globals)) = Finite 0 \<and>
   ((12641975 / 1024 + 3002469 / 128) - 1145679 / 32) - ((0 + 0) - 0) = (- 1 / 1024 :: real)"
  by (simp add: updateUsage_fields updateUsage_dayUsage init_fields substring_0_6 usage_arith del: float_simps)

text \<open>
  Claim C5, amended. For every call of \<^verbatim>\<open>updateUsage\<close> with the baseline set (the
  test of line 327 holds) and the day key unchanged, the day total becomes the binary32
  sum of the day total and the delta
  \<open>((del1 + del2) - lastDelivered) - ((ret1 + ret2) - lastReturned)\<close>, in which every
  addition and subtraction is a binary32 operation, rounded to the nearest value. With
  the baselines 5 and 0 and the new sums 6.5 and 0.5 the delta is exactly 1: the day total
  becomes the binary32 sum of the day total and 1, which is exactly 1 when the day total
  was 0 (as after the call that set the baseline).
\<close>

theorem updateUsage_delta:
  assumes "fle (Finite 0) (lastDelivered g)" and "substring timestamp 0 6 = lastTimestamp g"
  shows "dayUsage (updateUsage timestamp del1 del2 ret1 ret2 g) =
           fadd (dayUsage g)
             (fsub (fsub (fadd del1 del2) (lastDelivered g))
                   (fsub (fadd ret1 ret2) (lastReturned g))) \<and>
         (lastDelivered g = Finite 5 \<and> lastReturned g = Finite 0 \<and>
          fadd del1 del2 = Finite (13 / 2) \<and> fadd ret1 ret2 = Finite (1 / 2)
            \<longrightarrow> dayUsage (updateUsage timestamp del1 del2 ret1 ret2 g) =
                  fadd (dayUsage g) (Finite 1) \<and>
                (dayUsage g = Finite 0
                   \<longrightarrow> dayUsage (updateUsage timestamp del1 del2 ret1 ret2 g) = Finite 1))"
  using assms by (auto simp add: updateUsage_dayUsage usage_arith simp del: float_simps)

theorem updateUsage_delta_witness:
  "fle (Finite 0) (lastDelivered (updateUsage ''200101120000'' (Finite 3) (Finite 2) (Finite 0)
      (Finite 0) init_globals)) \<and>
   substring ''200101120010'' 0 6 = lastTimestamp (updateUsage ''200101120000'' (Finite 3)
      (Finite 2) (Finite 0) (Finite 0) init_globals) \<and>
   lastDelivered (updateUsage ''200101120000'' (Finite 3) (Finite 2) (Finite 0) (Finite 0)
      init_globals) = Finite 5 \<and>
   lastReturned (updateUsage ''200101120000'' (Finite 3) (Finite 2) (Finite 0) (Finite 0)
      init_globals) = Finite 0 \<and>
   dayUsage (updateUsage ''200101120000'' (Finite 3) (Finite 2) (Finite 0) (Finite 0)
      init_globals) = Finite 0 \<and>
   fadd (Finite 4) (Finite (5 / 2)) = Finite (13 / 2) \<and>
   fadd (Finite (1 / 4)) (Finite (1 / 4)) = Finite (1 / 2) \<and>
   dayUsage (updateUsage ''200101120010'' (Finite 4) (Finite (5 / 2)) (Finite (1 / 4))
      (Finite (1 / 4))
      (updateUsage ''200101120000'' (Finite 3) (Finite 2) (Finite 0) (Finite 0) init_globals))
     = Finite 1"
  using updateUsage_delta
    [of "updateUsage ''200101120000'' (Finite 3) (Finite 2) (Finite 0) (Finite 0) init_globals"
      "''200101120010''" "Finite 4" "Finite (5 / 2)" "Finite (1 / 4)" "Finite (1 / 4)"]
  by (simp add: updateUsage_fields updateUsage_dayUsage init_fields substring_0_6 usage_arith del: float_simps)

subsection \<open>The day boundary\<close>

text \<open>
  The day total after a call on a new day is not 0 in general: the call sets the total to
  0 (line 323) and then adds its own delta (line 328). Here the day changes between two
  calls and the later call leaves the total at 4.
\<close>

theorem updateUsage_new_day_counterexample:
  "substring ''200101235955'' 0 6 \<noteq> substring ''200102000005'' 0 6 \<and>
   dayUsage (updateUsage ''200102000005'' (Finite 5) (Finite 0) (Finite 0) (Finite 0)
              (updateUsage ''200101235955'' (Finite 1) (Finite 0) (Finite 0) (Finite 0)
                 init_globals)) = Finite 4"
  by (simp add: updateUsage_fields updateUsage_dayUsage init_fields substring_0_6 usage_arith del: float_simps)

text \<open>
  Claim C3, amended. For every two consecutive calls of \<^verbatim>\<open>updateUsage\<close> whose
  timestamps differ in their first six characters, the later call drops the total
  accumulated so far and starts again from 0: whatever the total was before, after the
  later call it is the binary32 sum of 0 and the delta of the registers between the two
  calls, every addition and subtraction of the delta being a binary32 operation (when the
  earlier delivered sum is not negative, so that the baseline counts as set; the total is
  0 otherwise).
\<close>

theorem updateUsage_new_day:
  assumes "substring ts1 0 6 \<noteq> substring ts2 0 6"
  shows "dayUsage (updateUsage ts2 d1 d2 r1 r2 (updateUsage ts1 a1 a2 b1 b2 g)) =
           (if fle (Finite 0) (fadd a1 a2)
            then fadd (Finite 0)
                   (fsub (fsub (fadd d1 d2) (fadd a1 a2)) (fsub (fadd r1 r2) (fadd b1 b2)))
            else Finite 0)"
  using assms by (simp add: updateUsage_dayUsage updateUsage_fields)

theorem updateUsage_new_day_witness:
  "substring ''200101235955'' 0 6 \<noteq> substring ''200102000005'' 0 6 \<and>
   dayUsage (updateUsage ''200101235955'' (Finite 1) (Finite 0) (Finite 0) (Finite 0)
              (updateUsage ''200101120000'' (Finite 0) (Finite 0) (Finite 6) (Finite 0)
                 init_globals)) = Finite 7 \<and>
   dayUsage (updateUsage ''200102000005'' (Finite 5) (Finite 0) (Finite 0) (Finite 0)
              (updateUsage ''200101235955'' (Finite 1) (Finite 0) (Finite 0) (Finite 0)
                (updateUsage ''200101120000'' (Finite 0) (Finite 0) (Finite 6) (Finite 0)
                   init_globals))) = Finite 4"
  using updateUsage_new_day
    [of "''200101235955''" "''200102000005''" "Finite 5" "Finite 0" "Finite 0" "Finite 0"
      "Finite 1" "Finite 0" "Finite 0" "Finite 0"
      "updateUsage ''200101120000'' (Finite 0) (Finite 0) (Finite 6) (Finite 0) init_globals"]
  by (simp add: updateUsage_fields updateUsage_dayUsage init_fields substring_0_6 usage_arith del: float_simps)

subsection \<open>Short timestamps\<close>

text \<open>
  A timestamp of four characters is taken as it is: after two calls on one day with a day
  total of 1, the call with the timestamp \<open>2001\<close> stores \<open>2001\<close> as the day key and
  sets the total back to 0. Nothing fails, and the day-boundary logic has run.
\<close>

theorem updateUsage_short_timestamp_counterexample:
  "length ''2001'' < 6 \<and>
   dayUsage (updateUsage ''200101120010'' (Finite 2) (Finite 1) (Finite 0) (Finite 0)
              (updateUsage ''200101120000'' (Finite 1) (Finite 1) (Finite 0) (Finite 0)
                 init_globals)) = Finite 1 \<and>
   lastTimestamp (updateUsage ''200101120010'' (Finite 2) (Finite 1) (Finite 0) (Finite 0)
              (updateUsage ''200101120000'' (Finite 1) (Finite 1) (Finite 0) (Finite 0)
                 init_globals)) = ''200101'' \<and>
   lastTimestamp (updateUsage ''2001'' (Finite 2) (Finite 1) (Finite 0) (Finite 0)
            (updateUsage ''200101120010'' (Finite 2) (Finite 1) (Finite 0) (Finite 0)
              (updateUsage ''200101120000'' (Finite 1) (Finite 1) (Finite 0) (Finite 0)
                 init_globals))) = ''2001'' \<and>
   dayUsage (updateUsage ''2001'' (Finite 2) (Finite 1) (Finite 0) (Finite 0)
            (updateUsage ''200101120010'' (Finite 2) (Finite 1) (Finite 0) (Finite 0)
              (updateUsage ''200101120000'' (Finite 1) (Finite 1) (Finite 0) (Finite 0)
                 init_globals))) = Finite 0"
  by (simp add: updateUsage_fields updateUsage_dayUsage init_fields substring_0_6 usage_arith del: float_simps)

text \<open>
  Claim C2, amended. For every timestamp shorter than six characters \<^verbatim>\<open>updateUsage\<close>
  does not fail and reads nothing outside the string: \<^verbatim>\<open>substring(0,6)\<close> yields the
  whole timestamp, which becomes the day key, and the day-boundary logic runs on it as on
  any other key. When the key differs from the stored one the total restarts from 0,
  otherwise it is kept, and in both cases the delta is added (in binary32) when the
  baseline is set.
\<close>

theorem updateUsage_short_timestamp:
  assumes "length timestamp < 6"
  shows "substring timestamp 0 6 = timestamp \<and>
         lastTimestamp (updateUsage timestamp del1 del2 ret1 ret2 g) = timestamp \<and>
         (lastTimestamp g \<noteq> timestamp \<longrightarrow>
            dayUsage (updateUsage timestamp del1 del2 ret1 ret2 g) =
              (if fle (Finite 0) (lastDelivered g)
               then fadd (Finite 0)
                      (fsub (fsub (fadd del1 del2) (lastDelivered g))
                            (fsub (fadd ret1 ret2) (lastReturned g)))
               else Finite 0)) \<and>
         (lastTimestamp g = timestamp \<longrightarrow>
            dayUsage (updateUsage timestamp del1 del2 ret1 ret2 g) =
              (if fle (Finite 0) (lastDelivered g)
               then fadd (dayUsage g)
                      (fsub (fsub (fadd del1 del2) (lastDelivered g))
                            (fsub (fadd ret1 ret2) (lastReturned g)))
               else dayUsage g))"
  using assms by (simp add: updateUsage_dayUsage updateUsage_fields substring_0_6)

theorem updateUsage_short_timestamp_witness:
  "length ''2001'' < 6 \<and> substring ''2001'' 0 6 = ''2001'' \<and>
   lastTimestamp (updateUsage ''200101120000'' (Finite 1) (Finite 1) (Finite 0) (Finite 0)
      init_globals) \<noteq> ''2001'' \<and>
   lastTimestamp (updateUsage ''2001'' (Finite 7) (Finite 0) (Finite 0) (Finite 0)
                   (updateUsage ''200101120000'' (Finite 1) (Finite 1) (Finite 0) (Finite 0)
                      init_globals)) = ''2001'' \<and>
   dayUsage (updateUsage ''2001'' (Finite 7) (Finite 0) (Finite 0) (Finite 0)
              (updateUsage ''200101120000'' (Finite 1) (Finite 1) (Finite 0) (Finite 0)
                 init_globals)) = Finite 5"
  using updateUsage_short_timestamp
    [of "''2001''" "Finite 7" "Finite 0" "Finite 0" "Finite 0"
      "updateUsage ''200101120000'' (Finite 1) (Finite 1) (Finite 0) (Finite 0) init_globals"]
  by (simp add: updateUsage_fields updateUsage_dayUsage init_fields substring_0_6 usage_arith del: float_simps)

subsection \<open>The two baselines\<close>

lemma rnd_nonneg: "0 \<le> z \<Longrightarrow> fle (Finite 0) (rnd z)"
proof -
  assume "0 \<le> z"
  then have "fle (rnd 0) (rnd z)" by (rule rnd_mono)
  moreover have "rnd 0 = Finite 0" by (rule rnd_exact [of _ 0 0]) simp_all
  ultimately show ?thesis by simp
qed

lemma fadd_nonneg: "fle (Finite 0) a \<Longrightarrow> fle (Finite 0) b \<Longrightarrow> fle (Finite 0) (fadd a b)"
  by (cases a; cases b) (simp_all add: rnd_nonneg)

lemma sentinel_negative: "\<not> fle (Finite 0) (Finite (- 1))"
  by simp

lemma updateUsage_paired:
  assumes "fle (Finite 0) del1" "fle (Finite 0) del2" "fle (Finite 0) ret1" "fle (Finite 0) ret2"
  shows "baseline_paired (updateUsage timestamp del1 del2 ret1 ret2 g)"
proof -
  from assms have d: "fle (Finite 0) (fadd del1 del2)" and r: "fle (Finite 0) (fadd ret1 ret2)"
    by (simp_all add: fadd_nonneg)
  from d have "fadd del1 del2 \<noteq> Finite (- 1)" by (auto simp del: fadd.simps)
  moreover from r have "fadd ret1 ret2 \<noteq> Finite (- 1)" by (auto simp del: fadd.simps)
  ultimately show ?thesis
    using d r by (simp add: baseline_paired_def updateUsage_fields del: fadd.simps)
qed

lemma updateUsage_all_paired:
  "baseline_paired g \<Longrightarrow> list_all nonneg_registers rs \<Longrightarrow>
   baseline_paired (updateUsage_all rs g)"
proof (induction rs arbitrary: g)
  case Nil
  then show ?case by simp
next
  case (Cons r rs)
  obtain timestamp del1 del2 ret1 ret2 where r: "r = (timestamp, del1, del2, ret1, ret2)"
    by (cases r)
  from Cons.prems have "baseline_paired (updateUsage timestamp del1 del2 ret1 ret2 g)"
    by (simp add: r nonneg_registers_def updateUsage_paired)
  with Cons show ?case
    by (simp add: r)
qed

text \<open>
  Claim C9. After initialisation and after every sequence of \<^verbatim>\<open>updateUsage\<close> calls, the
  delivered baseline is the sentinel if and only if the returned baseline is, and the
  test of line 327 holds of the one if and only if it holds of the other: the guard never
  lets an unset returned baseline be read. The registers of the calls are those that the
  sketch can pass (lines 480--486): values of unsigned fields, which are not negative.
\<close>

theorem baseline_pair:
  assumes "list_all nonneg_registers rs"
  shows "(lastDelivered (updateUsage_all rs init_globals) = Finite (- 1) \<longleftrightarrow>
          lastReturned (updateUsage_all rs init_globals) = Finite (- 1)) \<and>
         (fle (Finite 0) (lastDelivered (updateUsage_all rs init_globals)) \<longleftrightarrow>
          fle (Finite 0) (lastReturned (updateUsage_all rs init_globals)))"
proof -
  have "baseline_paired init_globals"
    by (simp add: baseline_paired_def init_fields)
  then have "baseline_paired (updateUsage_all rs init_globals)"
    using assms by (rule updateUsage_all_paired)
  then show ?thesis by (simp add: baseline_paired_def)
qed

theorem baseline_pair_witness:
  "list_all nonneg_registers
     [(''200101120000'', Finite 1, Finite 1, Finite 0, Finite 0),
      (''200101120010'', Finite 2, Finite 1, Finite 0, Finite 1)] \<and>
   lastDelivered (updateUsage_all
     [(''200101120000'', Finite 1, Finite 1, Finite 0, Finite 0),
      (''200101120010'', Finite 2, Finite 1, Finite 0, Finite 1)] init_globals) = Finite 3 \<and>
   lastReturned (updateUsage_all
     [(''200101120000'', Finite 1, Finite 1, Finite 0, Finite 0),
      (''200101120010'', Finite 2, Finite 1, Finite 0, Finite 1)] init_globals) = Finite 1 \<and>
   list_all nonneg_registers [] \<and>
   lastDelivered (updateUsage_all [] init_globals) = Finite (- 1) \<and>
   lastReturned (updateUsage_all [] init_globals) = Finite (- 1)"
  using baseline_pair
    [of "[(''200101120000'', Finite 1, Finite 1, Finite 0, Finite 0),
          (''200101120010'', Finite 2, Finite 1, Finite 0, Finite 1)]"]
    baseline_pair [of "[]"]
  by (simp add: nonneg_registers_def updateUsage_fields init_fields usage_arith del: float_simps)

section \<open>The gauge\<close>

subsection \<open>The angle\<close>

lemma angle_expr:
  "fadd (Finite (- 90))
     (fmul (fdiv (fadd v (Finite (of_int MAX_POWER_RETURN)))
                 (Finite (of_int (MAX_POWER_RETURN + MAX_POWER_CONSUMPTION))))
           (Finite 180)) = angle32 v"
  by (simp add: MAX_POWER_RETURN_def MAX_POWER_CONSUMPTION_def angle32_def del: float_simps)

lemma setCurrentValue_angle:
  "map_option dialAngle (setCurrentValue v g) = float_to_int16 (angle32 v)"
  unfolding setCurrentValue_def angle_expr by (simp split: option.splits)

lemma setCurrentValue_defined:
  "setCurrentValue v g \<noteq> None \<longleftrightarrow> float_to_int16 (angle32 v) \<noteq> None"
  by (metis setCurrentValue_angle option.map_disc_iff)

lemma float_to_int16_fits:
  "float_to_int16 a \<noteq> None \<longleftrightarrow> (\<exists>x. a = Finite x \<and> - 32769 < x \<and> x < 32768)"
proof (cases a)
  case (Finite x)
  have "float_to_int16 (Finite x) \<noteq> None \<longleftrightarrow> - 32769 < x \<and> x < 32768"
    by (cases "0 \<le> x")
      (auto simp add: Let_def le_floor_iff floor_le_iff le_ceiling_iff ceiling_le_iff)
  with Finite show ?thesis by simp
qed simp_all

lemma float_to_int16_Finite:
  assumes "float_to_int16 (Finite x) = Some i"
  shows "(0 \<le> x \<longrightarrow> i = \<lfloor>x\<rfloor>) \<and> (x < 0 \<longrightarrow> i = \<lceil>x\<rceil>)"
  using assms by (auto simp add: Let_def split: if_splits)

lemma angle32_mono: "fle x y \<Longrightarrow> fle (angle32 x) (angle32 y)"
  unfolding angle32_def
  by (intro fadd_left_mono fmul_right_mono fdiv_right_mono fadd_right_mono) simp_all

text \<open>The four operations of the angle at the values that the examples below need.\<close>

lemma angle_arith:
  shows "fadd (Finite 0) (Finite 6) = Finite 6"
    and "fdiv (Finite 6) (Finite 24) = Finite (1 / 4)"
    and "fmul (Finite (1 / 4)) (Finite 180) = Finite 45"
    and "fadd (Finite (- 90)) (Finite 45) = Finite (- 45)"
    and "fadd (Finite 18) (Finite 6) = Finite 24"
    and "fdiv (Finite 24) (Finite 24) = Finite 1"
    and "fmul (Finite 1) (Finite 180) = Finite 180"
    and "fadd (Finite (- 90)) (Finite 180) = Finite 90"
    and "fadd (Finite (- 6)) (Finite 6) = Finite 0"
    and "fdiv (Finite 0) (Finite 24) = Finite 0"
    and "fmul (Finite 0) (Finite 180) = Finite 0"
    and "fadd (Finite (- 90)) (Finite 0) = Finite (- 90)"
    and "fadd (Finite 30) (Finite 6) = Finite 36"
    and "fdiv (Finite 36) (Finite 24) = Finite (3 / 2)"
    and "fmul (Finite (3 / 2)) (Finite 180) = Finite 270"
    and "fadd (Finite (- 90)) (Finite 270) = Finite 180"
    and "fadd (Finite (- 18)) (Finite 6) = Finite (- 12)"
    and "fdiv (Finite (- 12)) (Finite 24) = Finite (- 1 / 2)"
    and "fmul (Finite (- 1 / 2)) (Finite 180) = Finite (- 90)"
    and "fadd (Finite (- 90)) (Finite (- 90)) = Finite (- 180)"
    and "fadd (Finite (13421773 / 134217728)) (Finite 6) = Finite (12792627 / 2097152)"
    and "fdiv (Finite (12792627 / 2097152)) (Finite 24) = Finite (4264209 / 16777216)"
    and "fmul (Finite (4264209 / 16777216)) (Finite 180) = Finite (183 / 4)"
    and "fadd (Finite (- 90)) (Finite (183 / 4)) = Finite (- 177 / 4)"
    and "fadd (Finite (10433331 / 1048576)) (Finite 6) = Finite (16724787 / 1048576)"
    and "fdiv (Finite (16724787 / 1048576)) (Finite 24) = Finite (5574929 / 8388608)"
    and "fmul (Finite (5574929 / 8388608)) (Finite 180) = Finite (957 / 8)"
    and "fadd (Finite (- 90)) (Finite (957 / 8)) = Finite (237 / 8)"
    and "fadd (Finite (10443817 / 1048576)) (Finite 6) = Finite (16735273 / 1048576)"
    and "fdiv (Finite (16735273 / 1048576)) (Finite 24) = Finite (11156849 / 16777216)"
    and "fmul (Finite (11156849 / 16777216)) (Finite 180) = Finite (15689319 / 131072)"
    and "fadd (Finite (- 90)) (Finite (15689319 / 131072)) = Finite (3892839 / 131072)"
    and "fadd (Finite 4375) (Finite 6) = Finite 4381"
    and "fdiv (Finite 4381) (Finite 24) = Finite (11963051 / 65536)"
    and "fmul (Finite (11963051 / 65536)) (Finite 180) = Finite (65715 / 2)"
    and "fadd (Finite (- 90)) (Finite (65715 / 2)) = Finite (65535 / 2)"
    and "fadd (Finite (- 4363)) (Finite 6) = Finite (- 4357)"
    and "fdiv (Finite (- 4357)) (Finite 24) = Finite (- 11897515 / 65536)"
    and "fmul (Finite (- 11897515 / 65536)) (Finite 180) = Finite (- 65355 / 2)"
    and "fadd (Finite (- 90)) (Finite (- 65355 / 2)) = Finite (- 65535 / 2)"
    and "fadd (Finite 4376) (Finite 6) = Finite 4382"
    and "fdiv (Finite 4382) (Finite 24) = Finite (11965781 / 65536)"
    and "fmul (Finite (11965781 / 65536)) (Finite 180) = Finite 32865"
    and "fadd (Finite (- 90)) (Finite 32865) = Finite 32775"
    and "fadd (Finite (- 4364)) (Finite 6) = Finite (- 4358)"
    and "fdiv (Finite (- 4358)) (Finite 24) = Finite (- 11900245 / 65536)"
    and "fmul (Finite (- 11900245 / 65536)) (Finite 180) = Finite (- 32685)"
    and "fadd (Finite (- 90)) (Finite (- 32685)) = Finite (- 32775)"
    and "fadd (Finite 5000) (Finite 6) = Finite 5006"
    and "fdiv (Finite 5006) (Finite 24) = Finite (13669717 / 65536)"
    and "fmul (Finite (13669717 / 65536)) (Finite 180) = Finite 37545"
    and "fadd (Finite (- 90)) (Finite 37545) = Finite 37455"
    and "fadd (Finite (- 12897485 / 1048576)) (Finite 6) = Finite (- 6606029 / 1048576)"
    and "fdiv (Finite (- 6606029 / 1048576)) (Finite 24) = Finite (- 8808039 / 33554432)"
    and "fmul (Finite (- 8808039 / 33554432)) (Finite 180) = Finite (- 12386305 / 262144)"
    and "fadd (Finite (- 90)) (Finite (- 12386305 / 262144)) = Finite (- 549 / 4)"
    and "fadd (Finite (13421773 / 16777216)) (Finite 6) = Finite (7130317 / 1048576)"
    and "fdiv (Finite (7130317 / 1048576)) (Finite 24) = Finite (9507089 / 33554432)"
    and "fmul (Finite (9507089 / 33554432)) (Finite 180) = Finite 51"
    and "fadd (Finite (- 90)) (Finite 51) = Finite (- 39)"
proof -
  show "fadd (Finite 0) (Finite 6) = Finite 6"
    by (simp add: fsub_def) (rule rnd_exact [of _ 3 1], simp_all)
  show "fdiv (Finite 6) (Finite 24) = Finite (1 / 4)"
    by (simp add: fsub_def) (rule rnd_exact [of _ 1 "- 2"], simp_all)
  show "fmul (Finite (1 / 4)) (Finite 180) = Finite 45"
    by (simp add: fsub_def) (rule rnd_exact [of _ 45 0], simp_all)
  show "fadd (Finite (- 90)) (Finite 45) = Finite (- 45)"
    by (simp add: fsub_def) (rule rnd_exact [of _ "- 45" 0], simp_all)
  show "fadd (Finite 18) (Finite 6) = Finite 24"
    by (simp add: fsub_def) (rule rnd_exact [of _ 3 3], simp_all)
  show "fdiv (Finite 24) (Finite 24) = Finite 1"
    by (simp add: fsub_def) (rule rnd_exact [of _ 1 0], simp_all)
  show "fmul (Finite 1) (Finite 180) = Finite 180"
    by (simp add: fsub_def) (rule rnd_exact [of _ 45 2], simp_all)
  show "fadd (Finite (- 90)) (Finite 180) = Finite 90"
    by (simp add: fsub_def) (rule rnd_exact [of _ 45 1], simp_all)
  show "fadd (Finite (- 6)) (Finite 6) = Finite 0"
    by (simp add: fsub_def) (rule rnd_exact [of _ 0 0], simp_all)
  show "fdiv (Finite 0) (Finite 24) = Finite 0"
    by (simp add: fsub_def) (rule rnd_exact [of _ 0 0], simp_all)
  show "fmul (Finite 0) (Finite 180) = Finite 0"
    by (simp add: fsub_def) (rule rnd_exact [of _ 0 0], simp_all)
  show "fadd (Finite (- 90)) (Finite 0) = Finite (- 90)"
    by (simp add: fsub_def) (rule rnd_exact [of _ "- 45" 1], simp_all)
  show "fadd (Finite 30) (Finite 6) = Finite 36"
    by (simp add: fsub_def) (rule rnd_exact [of _ 9 2], simp_all)
  show "fdiv (Finite 36) (Finite 24) = Finite (3 / 2)"
    by (simp add: fsub_def) (rule rnd_exact [of _ 3 "- 1"], simp_all)
  show "fmul (Finite (3 / 2)) (Finite 180) = Finite 270"
    by (simp add: fsub_def) (rule rnd_exact [of _ 135 1], simp_all)
  show "fadd (Finite (- 90)) (Finite 270) = Finite 180"
    by (simp add: fsub_def) (rule rnd_exact [of _ 45 2], simp_all)
  show "fadd (Finite (- 18)) (Finite 6) = Finite (- 12)"
    by (simp add: fsub_def) (rule rnd_exact [of _ "- 3" 2], simp_all)
  show "fdiv (Finite (- 12)) (Finite 24) = Finite (- 1 / 2)"
    by (simp add: fsub_def) (rule rnd_exact [of _ "- 1" "- 1"], simp_all)
  show "fmul (Finite (- 1 / 2)) (Finite 180) = Finite (- 90)"
    by (simp add: fsub_def) (rule rnd_exact [of _ "- 45" 1], simp_all)
  show "fadd (Finite (- 90)) (Finite (- 90)) = Finite (- 180)"
    by (simp add: fsub_def) (rule rnd_exact [of _ "- 45" 2], simp_all)
  show "fadd (Finite (13421773 / 134217728)) (Finite 6) = Finite (12792627 / 2097152)"
    by (simp add: fsub_def) (rule rnd_near [of _ 12792627 "- 21"], simp_all)
  show "fdiv (Finite (12792627 / 2097152)) (Finite 24) = Finite (4264209 / 16777216)"
    by (simp add: fsub_def) (rule rnd_exact [of _ 4264209 "- 24"], simp_all)
  show "fmul (Finite (4264209 / 16777216)) (Finite 180) = Finite (183 / 4)"
    by (simp add: fsub_def) (rule rnd_near [of _ 11993088 "- 18"], simp_all)
  show "fadd (Finite (- 90)) (Finite (183 / 4)) = Finite (- 177 / 4)"
    by (simp add: fsub_def) (rule rnd_exact [of _ "- 177" "- 2"], simp_all)
  show "fadd (Finite (10433331 / 1048576)) (Finite 6) = Finite (16724787 / 1048576)"
    by (simp add: fsub_def) (rule rnd_exact [of _ 16724787 "- 20"], simp_all)
  show "fdiv (Finite (16724787 / 1048576)) (Finite 24) = Finite (5574929 / 8388608)"
    by (simp add: fsub_def) (rule rnd_exact [of _ 5574929 "- 23"], simp_all)
  show "fmul (Finite (5574929 / 8388608)) (Finite 180) = Finite (957 / 8)"
    by (simp add: fsub_def) (rule rnd_near [of _ 15679488 "- 17"], simp_all)
  show "fadd (Finite (- 90)) (Finite (957 / 8)) = Finite (237 / 8)"
    by (simp add: fsub_def) (rule rnd_exact [of _ 237 "- 3"], simp_all)
  show "fadd (Finite (10443817 / 1048576)) (Finite 6) = Finite (16735273 / 1048576)"
    by (simp add: fsub_def) (rule rnd_exact [of _ 16735273 "- 20"], simp_all)
  show "fdiv (Finite (16735273 / 1048576)) (Finite 24) = Finite (11156849 / 16777216)"
    by (simp add: fsub_def) (rule rnd_near [of _ 11156849 "- 24"], simp_all)
  show "fmul (Finite (11156849 / 16777216)) (Finite 180) = Finite (15689319 / 131072)"
    by (simp add: fsub_def) (rule rnd_near [of _ 15689319 "- 17"], simp_all)
  show "fadd (Finite (- 90)) (Finite (15689319 / 131072)) = Finite (3892839 / 131072)"
    by (simp add: fsub_def) (rule rnd_exact [of _ 3892839 "- 17"], simp_all)
  show "fadd (Finite 4375) (Finite 6) = Finite 4381"
    by (simp add: fsub_def) (rule rnd_exact [of _ 4381 0], simp_all)
  show "fdiv (Finite 4381) (Finite 24) = Finite (11963051 / 65536)"
    by (simp add: fsub_def) (rule rnd_near [of _ 11963051 "- 16"], simp_all)
  show "fmul (Finite (11963051 / 65536)) (Finite 180) = Finite (65715 / 2)"
    by (simp add: fsub_def) (rule rnd_near [of _ 8411520 "- 8"], simp_all)
  show "fadd (Finite (- 90)) (Finite (65715 / 2)) = Finite (65535 / 2)"
    by (simp add: fsub_def) (rule rnd_exact [of _ 65535 "- 1"], simp_all)
  show "fadd (Finite (- 4363)) (Finite 6) = Finite (- 4357)"
    by (simp add: fsub_def) (rule rnd_exact [of _ "- 4357" 0], simp_all)
  show "fdiv (Finite (- 4357)) (Finite 24) = Finite (- 11897515 / 65536)"
    by (simp add: fsub_def) (rule rnd_near [of _ "- 11897515" "- 16"], simp_all)
  show "fmul (Finite (- 11897515 / 65536)) (Finite 180) = Finite (- 65355 / 2)"
    by (simp add: fsub_def) (rule rnd_near [of _ "- 16730880" "- 9"], simp_all)
  show "fadd (Finite (- 90)) (Finite (- 65355 / 2)) = Finite (- 65535 / 2)"
    by (simp add: fsub_def) (rule rnd_exact [of _ "- 65535" "- 1"], simp_all)
  show "fadd (Finite 4376) (Finite 6) = Finite 4382"
    by (simp add: fsub_def) (rule rnd_exact [of _ 2191 1], simp_all)
  show "fdiv (Finite 4382) (Finite 24) = Finite (11965781 / 65536)"
    by (simp add: fsub_def) (rule rnd_near [of _ 11965781 "- 16"], simp_all)
  show "fmul (Finite (11965781 / 65536)) (Finite 180) = Finite 32865"
    by (simp add: fsub_def) (rule rnd_near [of _ 8413440 "- 8"], simp_all)
  show "fadd (Finite (- 90)) (Finite 32865) = Finite 32775"
    by (simp add: fsub_def) (rule rnd_exact [of _ 32775 0], simp_all)
  show "fadd (Finite (- 4364)) (Finite 6) = Finite (- 4358)"
    by (simp add: fsub_def) (rule rnd_exact [of _ "- 2179" 1], simp_all)
  show "fdiv (Finite (- 4358)) (Finite 24) = Finite (- 11900245 / 65536)"
    by (simp add: fsub_def) (rule rnd_near [of _ "- 11900245" "- 16"], simp_all)
  show "fmul (Finite (- 11900245 / 65536)) (Finite 180) = Finite (- 32685)"
    by (simp add: fsub_def) (rule rnd_near [of _ "- 16734720" "- 9"], simp_all)
  show "fadd (Finite (- 90)) (Finite (- 32685)) = Finite (- 32775)"
    by (simp add: fsub_def) (rule rnd_exact [of _ "- 32775" 0], simp_all)
  show "fadd (Finite 5000) (Finite 6) = Finite 5006"
    by (simp add: fsub_def) (rule rnd_exact [of _ 2503 1], simp_all)
  show "fdiv (Finite 5006) (Finite 24) = Finite (13669717 / 65536)"
    by (simp add: fsub_def) (rule rnd_near [of _ 13669717 "- 16"], simp_all)
  show "fmul (Finite (13669717 / 65536)) (Finite 180) = Finite 37545"
    by (simp add: fsub_def) (rule rnd_near [of _ 9611520 "- 8"], simp_all)
  show "fadd (Finite (- 90)) (Finite 37545) = Finite 37455"
    by (simp add: fsub_def) (rule rnd_exact [of _ 37455 0], simp_all)
  show "fadd (Finite (- 12897485 / 1048576)) (Finite 6) = Finite (- 6606029 / 1048576)"
    by (simp add: fsub_def) (rule rnd_exact [of _ "- 6606029" "- 20"], simp_all)
  show "fdiv (Finite (- 6606029 / 1048576)) (Finite 24) = Finite (- 8808039 / 33554432)"
    by (simp add: fsub_def) (rule rnd_near [of _ "- 8808039" "- 25"], simp_all)
  show "fmul (Finite (- 8808039 / 33554432)) (Finite 180) = Finite (- 12386305 / 262144)"
    by (simp add: fsub_def) (rule rnd_near [of _ "- 12386305" "- 18"], simp_all)
  show "fadd (Finite (- 90)) (Finite (- 12386305 / 262144)) = Finite (- 549 / 4)"
    by (simp add: fsub_def) (rule rnd_near [of _ "- 8994816" "- 16"], simp_all)
  show "fadd (Finite (13421773 / 16777216)) (Finite 6) = Finite (7130317 / 1048576)"
    by (simp add: fsub_def) (rule rnd_near [of _ 14260634 "- 21"], simp_all)
  show "fdiv (Finite (7130317 / 1048576)) (Finite 24) = Finite (9507089 / 33554432)"
    by (simp add: fsub_def) (rule rnd_near [of _ 9507089 "- 25"], simp_all)
  show "fmul (Finite (9507089 / 33554432)) (Finite 180) = Finite 51"
    by (simp add: fsub_def) (rule rnd_near [of _ 13369344 "- 18"], simp_all)
  show "fadd (Finite (- 90)) (Finite 51) = Finite (- 39)"
    by (simp add: fsub_def) (rule rnd_exact [of _ "- 39" 0], simp_all)
qed

lemma angle32_values:
  "angle32 (Finite 0) = Finite (- 45)"
  "angle32 (Finite 18) = Finite 90"
  "angle32 (Finite (- 6)) = Finite (- 90)"
  "angle32 (Finite 30) = Finite 180"
  "angle32 (Finite (- 18)) = Finite (- 180)"
  "angle32 (Finite (13421773 / 134217728)) = Finite (- 177 / 4)"
  "angle32 (Finite (13421773 / 16777216)) = Finite (- 39)"
  "angle32 (Finite 4375) = Finite (65535 / 2)"
  "angle32 (Finite (- 4363)) = Finite (- 65535 / 2)"
  "angle32 (Finite 4376) = Finite 32775"
  "angle32 (Finite (- 4364)) = Finite (- 32775)"
  "angle32 (Finite 5000) = Finite 37455"
  by (simp_all only: angle32_def angle_arith)

text \<open>
  The conversion is defined from \<open>- 4363\<close> to 4375, and not beyond \<open>- 4364\<close> and 4376.
\<close>

lemma angle32_fits:
  assumes "fle (Finite (- 4363)) v" "fle v (Finite 4375)"
  shows "float_to_int16 (angle32 v) \<noteq> None"
proof -
  from assms(1) have lo: "fle (Finite (- 65535 / 2)) (angle32 v)"
    using angle32_mono [of "Finite (- 4363)" v] by (simp only: angle32_values)
  from assms(2) have hi: "fle (angle32 v) (Finite (65535 / 2))"
    using angle32_mono [of v "Finite 4375"] by (simp only: angle32_values)
  from lo hi obtain a where a: "angle32 v = Finite a" by (cases "angle32 v") simp_all
  with lo hi have "- 32769 < a \<and> a < 32768" by simp
  with a show ?thesis by (simp only: float_to_int16_fits) blast
qed

lemma angle32_fits_bound:
  assumes "float_to_int16 (angle32 v) \<noteq> None"
  shows "\<exists>x. v = Finite x \<and> - 4364 < x \<and> x < 4376"
proof -
  from assms obtain a where a: "angle32 v = Finite a" "- 32769 < a" "a < 32768"
    by (auto simp only: float_to_int16_fits)
  have fin: "\<exists>x. v = Finite x"
    using a(1) by (cases v) (simp_all add: angle32_def inf_sign_def)
  then obtain x where x: "v = Finite x" by blast
  have "x < 4376"
  proof (rule ccontr)
    assume "\<not> x < 4376"
    then have "fle (Finite 4376) v" by (simp add: x)
    then have "fle (angle32 (Finite 4376)) (angle32 v)" by (rule angle32_mono)
    then show False using a by (simp add: angle32_values)
  qed
  moreover have "- 4364 < x"
  proof (rule ccontr)
    assume "\<not> - 4364 < x"
    then have "fle v (Finite (- 4364))" by (simp add: x)
    then have "fle (angle32 v) (angle32 (Finite (- 4364)))" by (rule angle32_mono)
    then show False using a by (simp add: angle32_values)
  qed
  ultimately show ?thesis using x by blast
qed

text \<open>
  Each of the four operations is off by half a unit in the last place at most, so the
  binary32 angle stays within \<open>1 / 128\<close> of the value of the formula over the real
  numbers.
\<close>

lemma ulp_le:
  assumes "\<bar>x\<bar> < 2 powi (e + 1)" "- 126 \<le> e"
  shows "ulp x \<le> 2 powi (e - 23)"
proof -
  have "binade \<bar>x\<bar> \<le> e"
  proof (rule ccontr)
    assume "\<not> binade \<bar>x\<bar> \<le> e"
    then have l: "e + 1 \<le> binade \<bar>x\<bar>" by simp
    with assms(2) binade_in [of "\<bar>x\<bar>"] have "2 powi binade \<bar>x\<bar> \<le> \<bar>x\<bar>" by auto
    moreover from l have "(2 :: real) powi (e + 1) \<le> 2 powi binade \<bar>x\<bar>"
      by (intro power_int_increasing) simp_all
    ultimately show False using assms(1) by linarith
  qed
  then have "(2 :: real) powi (binade \<bar>x\<bar> - 23) \<le> 2 powi (e - 23)"
    by (intro power_int_increasing) simp_all
  then show ?thesis by (simp only: ulp_def)
qed

lemma fl32_close:
  assumes "\<bar>x\<bar> < 2 powi (e + 1)" "- 126 \<le> e" "2 powi (e - 23) \<le> 2 * d"
  shows "\<bar>fl32 x - x\<bar> \<le> d"
  using ulp_le [OF assms(1,2)] fl32_err [of x] assms(3) by linarith

lemma rnd_finite: "\<bar>fl32 x\<bar> \<le> 2 ^ 24 \<Longrightarrow> rnd x = Finite (fl32 x)"
proof -
  assume "\<bar>fl32 x\<bar> \<le> 2 ^ 24"
  moreover have "(2 ^ 24 :: real) < 2 powi 128" by simp
  ultimately show ?thesis by (simp add: rnd_def Let_def abs_le_iff)
qed

lemma angle32_close:
  assumes "- 4364 < x" "x < 4376"
  shows "\<exists>a. angle32 (Finite x) = Finite a \<and> \<bar>a - spec_angle x\<bar> < 1 / 128"
proof -
  define s1 where "s1 = fl32 (x + 6)"
  define s2 where "s2 = fl32 (s1 / 24)"
  define s3 where "s3 = fl32 (s2 * 180)"
  define s4 where "s4 = fl32 (- 90 + s3)"
  from assms have "\<bar>x + 6\<bar> < 8192" by linarith
  then have e1: "\<bar>s1 - (x + 6)\<bar> \<le> 1 / 4096"
    unfolding s1_def by (intro fl32_close [of _ 12]) simp_all
  with assms have b1: "\<bar>s1\<bar> \<le> 4383" by linarith
  then have "\<bar>s1 / 24\<bar> < 256" by linarith
  then have e2: "\<bar>s2 - s1 / 24\<bar> \<le> 1 / 131072"
    unfolding s2_def by (intro fl32_close [of _ 7]) simp_all
  with b1 have b2: "\<bar>s2\<bar> \<le> 183" by linarith
  then have "\<bar>s2 * 180\<bar> < 65536" by linarith
  then have e3: "\<bar>s3 - s2 * 180\<bar> \<le> 1 / 512"
    unfolding s3_def by (intro fl32_close [of _ 15]) simp_all
  with b2 have b3: "\<bar>s3\<bar> \<le> 32941" by linarith
  then have "\<bar>- 90 + s3\<bar> < 65536" by linarith
  then have e4: "\<bar>s4 - (- 90 + s3)\<bar> \<le> 1 / 512"
    unfolding s4_def by (intro fl32_close [of _ 15]) simp_all
  with b3 have b4: "\<bar>s4\<bar> \<le> 33032" by linarith
  from b1 have "\<bar>s1\<bar> \<le> 2 ^ 24" by simp
  then have r1: "rnd (x + 6) = Finite s1" unfolding s1_def by (rule rnd_finite)
  from b2 have "\<bar>s2\<bar> \<le> 2 ^ 24" by simp
  then have r2: "rnd (s1 / 24) = Finite s2" unfolding s2_def by (rule rnd_finite)
  from b3 have "\<bar>s3\<bar> \<le> 2 ^ 24" by simp
  then have r3: "rnd (s2 * 180) = Finite s3" unfolding s3_def by (rule rnd_finite)
  from b4 have "\<bar>s4\<bar> \<le> 2 ^ 24" by simp
  then have r4: "rnd (- 90 + s3) = Finite s4" unfolding s4_def by (rule rnd_finite)
  have a1: "fadd (Finite x) (Finite 6) = Finite s1" by (simp add: r1)
  have a2: "fdiv (Finite s1) (Finite 24) = Finite s2" by (simp add: r2)
  have a3: "fmul (Finite s2) (Finite 180) = Finite s3" by (simp add: r3)
  have a4: "fadd (Finite (- 90)) (Finite s3) = Finite s4" by (simp only: fadd.simps r4)
  have a: "angle32 (Finite x) = Finite s4" by (simp only: angle32_def a1 a2 a3 a4)
  from e1 have f1: "s1 - (x + 6) \<le> 1 / 4096" "- (1 / 4096) \<le> s1 - (x + 6)" by linarith+
  from e2 have f2: "s2 - s1 / 24 \<le> 1 / 131072" "- (1 / 131072) \<le> s2 - s1 / 24" by linarith+
  from e3 have f3: "s3 - s2 * 180 \<le> 1 / 512" "- (1 / 512) \<le> s3 - s2 * 180" by linarith+
  from e4 have f4: "s4 - (- 90 + s3) \<le> 1 / 512" "- (1 / 512) \<le> s4 - (- 90 + s3)" by linarith+
  have S: "spec_angle x = 15 / 2 * x - 45" by (simp add: spec_angle_def)
  from f1 f2 f3 f4
  have "s4 - (15 / 2 * x - 45) < 1 / 128" "- (1 / 128) < s4 - (15 / 2 * x - 45)"
    by linarith+
  then have "\<bar>s4 - spec_angle x\<bar> < 1 / 128" unfolding S by linarith
  with a show ?thesis by blast
qed

text \<open>
  The angle is a whole number of degrees: \<^verbatim>\<open>dialAngle\<close> is an \<^verbatim>\<open>int16_t\<close> (line 85).
  At a net power of 0.1 (the binary32 number next to it) the four operations give
  \<open>- 44.25\<close>, which is also the value of the formula over the real numbers up to
  rounding, and the gauge gets \<open>- 44\<close>.
\<close>

theorem dialAngle_counterexample:
  "map_option dialAngle (setCurrentValue (Finite (13421773 / 134217728)) init_globals)
     = Some (- 44) \<and>
   angle32 (Finite (13421773 / 134217728)) = Finite (- 177 / 4) \<and>
   \<bar>spec_angle (13421773 / 134217728) - (- 177 / 4)\<bar> < 1 / 1000000"
  by (simp add: setCurrentValue_angle angle32_values spec_angle_def)

text \<open>
  Claim C6, amended. With the default calibration (6 and 18) the angle that
  \<^verbatim>\<open>setCurrentValue\<close> stores is \<open>- 90 + ((netPower + 6) / 24) * 180\<close>, computed in
  four binary32 operations (each rounded to the nearest value) and then with its fraction
  dropped (rounded towards zero to a whole number of degrees). The call has a result
  exactly when that binary32 angle fits the 16-bit variable (\<open>- 32769 < angle < 32768\<close>),
  which holds for every net power from \<open>- 4363\<close> to 4375; the binary32 angle is then
  within \<open>1 / 128\<close> of the value of the formula over the real numbers. The angle is not
  clamped to the range from \<open>- 90\<close> to 90. In particular 0 gives \<open>- 45\<close>, 18 gives 90,
  \<open>- 6\<close> gives \<open>- 90\<close>, and 30 and \<open>- 18\<close> give 180 and \<open>- 180\<close>.
\<close>

theorem dialAngle_truncated:
  "(setCurrentValue v g = Some g' \<longrightarrow>
      (\<exists>a. angle32 v = Finite a \<and> - 32769 < a \<and> a < 32768 \<and>
           (0 \<le> a \<longrightarrow> dialAngle g' = \<lfloor>a\<rfloor>) \<and> (a < 0 \<longrightarrow> dialAngle g' = \<lceil>a\<rceil>))) \<and>
   (setCurrentValue v g \<noteq> None \<longleftrightarrow> (\<exists>a. angle32 v = Finite a \<and> - 32769 < a \<and> a < 32768)) \<and>
   (fle (Finite (- 4363)) v \<and> fle v (Finite 4375) \<longrightarrow> setCurrentValue v g \<noteq> None) \<and>
   (setCurrentValue (Finite x) g \<noteq> None \<longrightarrow>
      (\<exists>a. angle32 (Finite x) = Finite a \<and> \<bar>a - spec_angle x\<bar> < 1 / 128)) \<and>
   map_option dialAngle (setCurrentValue (Finite 0) g) = Some (- 45) \<and>
   map_option dialAngle (setCurrentValue (Finite 18) g) = Some 90 \<and>
   map_option dialAngle (setCurrentValue (Finite (- 6)) g) = Some (- 90) \<and>
   map_option dialAngle (setCurrentValue (Finite 30) g) = Some 180 \<and>
   map_option dialAngle (setCurrentValue (Finite (- 18)) g) = Some (- 180)"
proof -
  have 1: "\<exists>a. angle32 v = Finite a \<and> - 32769 < a \<and> a < 32768 \<and>
           (0 \<le> a \<longrightarrow> dialAngle g' = \<lfloor>a\<rfloor>) \<and> (a < 0 \<longrightarrow> dialAngle g' = \<lceil>a\<rceil>)"
    if "setCurrentValue v g = Some g'"
  proof -
    from that have c: "float_to_int16 (angle32 v) = Some (dialAngle g')"
      using setCurrentValue_angle [of v g] by simp
    then have "float_to_int16 (angle32 v) \<noteq> None" by simp
    then obtain a where a: "angle32 v = Finite a" "- 32769 < a" "a < 32768"
      by (auto simp only: float_to_int16_fits)
    from c a(1) have "(0 \<le> a \<longrightarrow> dialAngle g' = \<lfloor>a\<rfloor>) \<and> (a < 0 \<longrightarrow> dialAngle g' = \<lceil>a\<rceil>)"
      by (intro float_to_int16_Finite) simp
    with a show ?thesis by blast
  qed
  have 2: "setCurrentValue v g \<noteq> None \<longleftrightarrow> (\<exists>a. angle32 v = Finite a \<and> - 32769 < a \<and> a < 32768)"
    by (simp only: setCurrentValue_defined float_to_int16_fits)
  have 3: "setCurrentValue v g \<noteq> None" if "fle (Finite (- 4363)) v \<and> fle v (Finite 4375)"
    using that by (simp only: setCurrentValue_defined) (intro angle32_fits, simp_all)
  have 4: "map_option dialAngle (setCurrentValue (Finite 0) g) = Some (- 45)"
    "map_option dialAngle (setCurrentValue (Finite 18) g) = Some 90"
    "map_option dialAngle (setCurrentValue (Finite (- 6)) g) = Some (- 90)"
    "map_option dialAngle (setCurrentValue (Finite 30) g) = Some 180"
    "map_option dialAngle (setCurrentValue (Finite (- 18)) g) = Some (- 180)"
    by (simp_all add: setCurrentValue_angle angle32_values)
  have 5: "\<exists>a. angle32 (Finite x) = Finite a \<and> \<bar>a - spec_angle x\<bar> < 1 / 128"
    if "setCurrentValue (Finite x) g \<noteq> None"
  proof -
    from that setCurrentValue_defined [of "Finite x" g]
    have "float_to_int16 (angle32 (Finite x)) \<noteq> None" by blast
    then have "- 4364 < x \<and> x < 4376" using angle32_fits_bound [of "Finite x"] by simp
    then show ?thesis by (intro angle32_close) simp_all
  qed
  from 1 2 3 4 5 show ?thesis by blast
qed

theorem dialAngle_truncated_witness:
  "setCurrentValue (Finite (13421773 / 16777216)) init_globals \<noteq> None \<and>
   fle (Finite (- 4363)) (Finite (13421773 / 16777216)) \<and>
   fle (Finite (13421773 / 16777216)) (Finite 4375) \<and>
   angle32 (Finite (13421773 / 16777216)) = Finite (- 39) \<and>
   map_option dialAngle (setCurrentValue (Finite (13421773 / 16777216)) init_globals)
     = Some (- 39) \<and>
   \<bar>- 39 - spec_angle (13421773 / 16777216)\<bar> < 1 / 128 \<and>
   \<lceil>spec_angle (13421773 / 16777216)\<rceil> = - 38"
proof -
  have r: "fle (Finite (- 4363)) (Finite (13421773 / 16777216)) \<and>
      fle (Finite (13421773 / 16777216)) (Finite 4375)" by simp
  with dialAngle_truncated [of "Finite (13421773 / 16777216)" init_globals]
  have d: "setCurrentValue (Finite (13421773 / 16777216)) init_globals \<noteq> None" by blast
  then obtain g' where g': "setCurrentValue (Finite (13421773 / 16777216)) init_globals = Some g'"
    by blast
  with dialAngle_truncated [of "Finite (13421773 / 16777216)" init_globals g']
  have "dialAngle g' = - 39" by (auto simp add: angle32_values)
  moreover have "\<lceil>spec_angle (13421773 / 16777216)\<rceil> = - 38"
    by (simp add: spec_angle_def ceiling_eq_iff)
  moreover from d dialAngle_truncated [of _ init_globals _ "13421773 / 16777216"]
  have "\<exists>a. angle32 (Finite (13421773 / 16777216)) = Finite a \<and>
      \<bar>a - spec_angle (13421773 / 16777216)\<bar> < 1 / 128" by blast
  then have "\<bar>- 39 - spec_angle (13421773 / 16777216)\<bar> < 1 / 128"
    by (simp only: angle32_values float32.inject) blast
  ultimately show ?thesis using r d g' by (simp add: angle32_values)
qed

text \<open>
  Beyond the 16-bit range the call produces no angle: the net powers 0 and 5000 are in
  order, and at 5000 the angle would be 37455.
\<close>

theorem dialAngle_mono_counterexample:
  "fle (Finite 0) (Finite 5000) \<and>
   setCurrentValue (Finite 0) init_globals \<noteq> None \<and>
   angle32 (Finite 5000) = Finite 37455 \<and>
   setCurrentValue (Finite 5000) init_globals = None"
proof -
  have "setCurrentValue (Finite 0) init_globals \<noteq> None"
    by (simp only: setCurrentValue_defined angle32_values) simp
  moreover have "\<not> setCurrentValue (Finite 5000) init_globals \<noteq> None"
    by (simp only: setCurrentValue_defined angle32_values) simp
  ultimately show ?thesis by (simp add: angle32_values)
qed

text \<open>
  Claim C10, amended. The gauge angle does not decrease when the net power grows, as far
  as the angle exists: the call has a result exactly when the binary32 angle fits the
  16-bit variable, which holds for every net power from \<open>- 4363\<close> to 4375, and for every
  pair \<open>x \<le> y\<close> of net powers for which it has a result the angle stored for \<open>x\<close> is at
  most the angle stored for \<open>y\<close>. Outside that range the conversion of line 298 has no
  defined result.
\<close>

theorem dialAngle_mono:
  "(setCurrentValue x g \<noteq> None \<longleftrightarrow> float_to_int16 (angle32 x) \<noteq> None) \<and>
   (fle (Finite (- 4363)) x \<and> fle x (Finite 4375) \<longrightarrow> setCurrentValue x g \<noteq> None) \<and>
   (fle x y \<and> setCurrentValue x g \<noteq> None \<and> setCurrentValue y h \<noteq> None \<longrightarrow>
      (\<exists>gx gy. setCurrentValue x g = Some gx \<and> setCurrentValue y h = Some gy \<and>
         dialAngle gx \<le> dialAngle gy))"
proof -
  have 2: "setCurrentValue x g \<noteq> None" if "fle (Finite (- 4363)) x \<and> fle x (Finite 4375)"
    using that by (simp only: setCurrentValue_defined) (intro angle32_fits, simp_all)
  have 3: "\<exists>gx gy. setCurrentValue x g = Some gx \<and> setCurrentValue y h = Some gy \<and>
         dialAngle gx \<le> dialAngle gy"
    if "fle x y \<and> setCurrentValue x g \<noteq> None \<and> setCurrentValue y h \<noteq> None"
  proof -
    from that obtain gx gy where s: "setCurrentValue x g = Some gx" "setCurrentValue y h = Some gy"
      by blast
    from s(1) have cx: "float_to_int16 (angle32 x) = Some (dialAngle gx)"
      using setCurrentValue_angle [of x g] by simp
    from s(2) have cy: "float_to_int16 (angle32 y) = Some (dialAngle gy)"
      using setCurrentValue_angle [of y h] by simp
    from that have "fle (angle32 x) (angle32 y)" by (intro angle32_mono) simp
    then have "dialAngle gx \<le> dialAngle gy" using cx cy by (rule float_to_int16_mono)
    with s show ?thesis by blast
  qed
  from 2 3 setCurrentValue_defined [of x g] show ?thesis by blast
qed

theorem dialAngle_mono_witness:
  "fle (Finite 0) (Finite (13421773 / 134217728)) \<and>
   fle (Finite (- 4363)) (Finite 0) \<and> fle (Finite 0) (Finite 4375) \<and>
   setCurrentValue (Finite 0) init_globals \<noteq> None \<and>
   setCurrentValue (Finite (13421773 / 134217728)) init_globals \<noteq> None \<and>
   map_option dialAngle (setCurrentValue (Finite 0) init_globals) = Some (- 45) \<and>
   map_option dialAngle (setCurrentValue (Finite (13421773 / 134217728)) init_globals)
     = Some (- 44)"
proof -
  have a: "fle (Finite (- 4363)) (Finite 0) \<and> fle (Finite 0) (Finite 4375)" by simp
  have b: "fle (Finite (- 4363)) (Finite (13421773 / 134217728)) \<and>
      fle (Finite (13421773 / 134217728)) (Finite 4375)" by simp
  from a dialAngle_mono [of "Finite 0" init_globals]
  have d0: "setCurrentValue (Finite 0) init_globals \<noteq> None" by blast
  from b dialAngle_mono [of "Finite (13421773 / 134217728)" init_globals]
  have d1: "setCurrentValue (Finite (13421773 / 134217728)) init_globals \<noteq> None" by blast
  have "fle (Finite 0) (Finite (13421773 / 134217728))" by simp
  with d0 d1 dialAngle_mono
    [of "Finite 0" init_globals "Finite (13421773 / 134217728)" init_globals]
  obtain gx gy where "setCurrentValue (Finite 0) init_globals = Some gx"
    "setCurrentValue (Finite (13421773 / 134217728)) init_globals = Some gy"
    "dialAngle gx \<le> dialAngle gy" by blast
  have v: "map_option dialAngle (setCurrentValue (Finite 0) init_globals) = Some (- 45)"
    "map_option dialAngle (setCurrentValue (Finite (13421773 / 134217728)) init_globals)
       = Some (- 44)"
    by (simp_all add: setCurrentValue_angle angle32_values)
  from a d0 d1 v show ?thesis by simp
qed

subsection \<open>The text\<close>

lemma dec_digits_small: "n < 10 \<Longrightarrow> dec_digits n = [char_of (48 + n)]"
  by (subst dec_digits.simps) simp

lemma dec_digits_large:
  "10 \<le> n \<Longrightarrow> dec_digits n = dec_digits (n div 10) @ [char_of (48 + n mod 10)]"
  by (subst dec_digits.simps) simp

lemma length_dec_digits_pos: "0 < length (dec_digits n)"
  by (subst dec_digits.simps) simp

lemma length_dec_digits_small: "n < 10 \<Longrightarrow> length (dec_digits n) = 1"
  by (simp add: dec_digits_small)

lemma length_dec_digits_large: "10 \<le> n \<Longrightarrow> 2 \<le> length (dec_digits n)"
proof -
  assume "10 \<le> n"
  moreover have "1 \<le> length (dec_digits (n div 10))"
    using length_dec_digits_pos [of "n div 10"] by linarith
  ultimately show ?thesis by (simp add: dec_digits_large)
qed

lemma length_fixed1_small: "t < 100 \<Longrightarrow> length (fixed1 t) = 3"
  by (simp add: fixed1_def length_dec_digits_small)

lemma length_fixed1_large: "100 \<le> t \<Longrightarrow> 4 \<le> length (fixed1 t)"
  using length_dec_digits_large [of "t div 10"]
  by (simp add: fixed1_def length_dec_digits_small)

text \<open>
  No padding is ever written: a text of a hundred tenths or more has four characters at
  least, and the width 4 is asked for only then.
\<close>

lemma pad_fixed1:
  "100 \<le> t \<or> width \<le> 3 \<Longrightarrow> width \<le> 4 \<Longrightarrow> replicate (width - length (fixed1 t)) c = []"
  using length_fixed1_small [of t] length_fixed1_large [of t] by (cases "t < 100") auto

text \<open>
  \<^verbatim>\<open>dtostrf\<close> with one digit prints the tenths next to its argument, so the rounding of
  the division by 10 does not show in the text.
\<close>

lemma dtostrf_near:
  assumes "0 \<le> y" "\<bar>y * 10 - of_nat t\<bar> < 1 / 2"
  shows "dtostrf (Finite y) width 1 =
     replicate (width - length (fixed1 t)) (CHR '' '') @ fixed1 t"
proof -
  from assms(2) have "real t \<le> y * 10 + 1 / 2" "y * 10 + 1 / 2 < real t + 1"
    by linarith+
  then have "\<lfloor>y * 10 + 1 / 2\<rfloor> = int t"
    by (intro floor_unique) simp_all
  with assms(1) have "\<lfloor>\<bar>y\<bar> * 10 + 1 / 2\<rfloor> = int t" by simp
  then have "nat \<lfloor>\<bar>y\<bar> * 10 ^ 1 + 1 / 2\<rfloor> = t" by simp
  with assms(1) show ?thesis
    by (simp add: Let_def fixed1_def length_dec_digits_small)
qed

lemma fl32_43760: "fl32 43760 = 43760" "fl32 (- 43760) = - 43760" "fl32 100 = 100"
proof -
  show "fl32 43760 = 43760" by (rule fl32_exact [of _ 43760 0]) simp_all
  show "fl32 (- 43760) = - 43760" by (rule fl32_exact [of _ "- 43760" 0]) simp_all
  show "fl32 100 = 100" by (rule fl32_exact [of _ 100 0]) simp_all
qed

text \<open>The product with 10, for a net power whose angle fits 16 bits.\<close>

lemma product_bounds:
  assumes "- 4364 < x" "x < 4376"
  shows "fmul (Finite x) (Finite 10) = Finite (fl32 (x * 10))"
    and "\<bar>fl32 (x * 10)\<bar> \<le> 43760"
    and "10 \<le> x \<Longrightarrow> 100 \<le> fl32 (x * 10)"
proof -
  from assms(2) have "fl32 (x * 10) \<le> fl32 43760" by (intro fl32_mono) simp
  moreover from assms(1) have "fl32 (- 43760) \<le> fl32 (x * 10)" by (intro fl32_mono) simp
  ultimately show b: "\<bar>fl32 (x * 10)\<bar> \<le> 43760" by (simp add: fl32_43760 abs_le_iff)
  have "(43760 :: real) < 2 powi 128" by simp
  with b show "fmul (Finite x) (Finite 10) = Finite (fl32 (x * 10))"
    by (simp add: rnd_def Let_def abs_le_iff)
  show "100 \<le> fl32 (x * 10)" if "10 \<le> x"
  proof -
    from that have "fl32 100 \<le> fl32 (x * 10)" by (intro fl32_mono) simp
    then show ?thesis by (simp add: fl32_43760)
  qed
qed

lemma round_away_minus: "round_away (- q) = - round_away q"
proof -
  have "- q - 1 / 2 = - (q + 1 / 2)" by simp
  then have a: "\<lceil>- q - 1 / 2\<rceil> = - \<lfloor>q + 1 / 2\<rfloor>" by (simp only: ceiling_minus)
  have "- q + 1 / 2 = - (q - 1 / 2)" by simp
  then have b: "\<lfloor>- q + 1 / 2\<rfloor> = - \<lceil>q - 1 / 2\<rceil>" by (simp only: floor_minus)
  consider "q = 0" | "0 < q" | "q < 0" by linarith
  then show ?thesis
  proof cases
    case 1
    then show ?thesis by (simp add: round_away_def)
  next
    case 2
    then have "round_away (- q) = \<lceil>- q - 1 / 2\<rceil>" "round_away q = \<lfloor>q + 1 / 2\<rfloor>"
      by (simp_all add: round_away_def)
    with a show ?thesis by simp
  next
    case 3
    then have "round_away (- q) = \<lfloor>- q + 1 / 2\<rfloor>" "round_away q = \<lceil>q - 1 / 2\<rceil>"
      by (simp_all add: round_away_def)
    with b show ?thesis by simp
  qed
qed

lemma round_away_abs: "\<bar>round_away q\<bar> = round_away \<bar>q\<bar>"
proof (cases "0 \<le> q")
  case True
  then have "0 \<le> \<lfloor>q + 1 / 2\<rfloor>" by simp
  with True show ?thesis by (simp add: round_away_def)
next
  case False
  then have "0 \<le> \<lfloor>- q + 1 / 2\<rfloor>" by simp
  then have "0 \<le> round_away (- q)" using False by (simp add: round_away_def)
  with False show ?thesis by (simp add: round_away_minus)
qed

lemma round_away_bounds:
  "\<bar>p\<bar> \<le> 43760 \<Longrightarrow> \<bar>round_away p\<bar> \<le> 43760"
  "100 \<le> p \<Longrightarrow> 100 \<le> round_away p"
proof -
  show "\<bar>round_away p\<bar> \<le> 43760" if "\<bar>p\<bar> \<le> 43760"
  proof -
    from that have "\<lfloor>\<bar>p\<bar> + 1 / 2\<rfloor> \<le> 43760" by (simp add: floor_le_iff)
    moreover have "round_away \<bar>p\<bar> = \<lfloor>\<bar>p\<bar> + 1 / 2\<rfloor>" by (simp add: round_away_def)
    ultimately show ?thesis by (simp only: round_away_abs)
  qed
  show "100 \<le> round_away p" if "100 \<le> p"
    using that by (simp add: round_away_def le_floor_iff)
qed

text \<open>The division of the rounded tenths by 10 stays within a tenth of a thousandth.\<close>

lemma tenths_div10:
  assumes "\<bar>k\<bar> \<le> 43760"
  shows "\<exists>y. fdiv (Finite (of_int k)) (Finite 10) = Finite y \<and>
           \<bar>\<bar>y\<bar> * 10 - of_nat (nat \<bar>k\<bar>)\<bar> < 1 / 2"
proof -
  define x :: real where "x = of_int k / 10"
  from assms have "\<bar>real_of_int k\<bar> \<le> 43760"
    by (metis of_int_abs of_int_le_iff of_int_numeral)
  then have ax: "\<bar>x\<bar> \<le> 4376" by (simp add: x_def)
  then have "\<bar>x\<bar> < 2 powi (12 + 1)" by simp
  then have "ulp x \<le> 2 powi (12 - 23)" by (rule ulp_le) simp
  then have u: "ulp x \<le> 1 / 2048" by simp
  from fl32_err [of x] u have e: "\<bar>fl32 x - x\<bar> \<le> 1 / 4096" by simp
  with ax have "\<bar>fl32 x\<bar> \<le> 4377" by linarith
  moreover have "(4377 :: real) < 2 powi 128" by simp
  ultimately have r: "rnd x = Finite (fl32 x)"
    by (simp add: rnd_def Let_def abs_le_iff)
  have "\<bar>\<bar>fl32 x\<bar> - \<bar>x\<bar>\<bar> \<le> \<bar>fl32 x - x\<bar>" by (rule abs_triangle_ineq3)
  with e have "\<bar>\<bar>fl32 x\<bar> - \<bar>x\<bar>\<bar> \<le> 1 / 4096" by simp
  then have "\<bar>\<bar>fl32 x\<bar> * 10 - \<bar>x\<bar> * 10\<bar> < 1 / 2" by linarith
  moreover have "\<bar>x\<bar> * 10 = of_nat (nat \<bar>k\<bar>)" by (simp add: x_def)
  ultimately have "\<bar>\<bar>fl32 x\<bar> * 10 - of_nat (nat \<bar>k\<bar>)\<bar> < 1 / 2"
    by (simp only:)
  moreover from r have "fdiv (Finite (of_int k)) (Finite 10) = Finite (fl32 x)"
    by (simp add: x_def)
  ultimately show ?thesis by blast
qed

text \<open>The text that line 309 produces, for a net power whose angle fits 16 bits.\<close>

lemma line_309:
  assumes "- 4364 < x" "x < 4376"
  shows "dtostrf (fabs (fdiv (roundf (fmul (Finite x) (Finite 10))) (Finite 10)))
           (if fle (Finite 10) (Finite x) then 4 else 3) 1 = fixed1 (tenths32 (Finite x))"
proof -
  define p where "p = fl32 (x * 10)"
  define k where "k = round_away p"
  note pb = product_bounds [OF assms, folded p_def]
  from pb(2) have kb: "\<bar>k\<bar> \<le> 43760" unfolding k_def by (rule round_away_bounds)
  from tenths_div10 [OF kb] obtain y
    where y: "fdiv (Finite (of_int k)) (Finite 10) = Finite y"
      "\<bar>\<bar>y\<bar> * 10 - of_nat (nat \<bar>k\<bar>)\<bar> < 1 / 2" by blast
  have t: "tenths32 (Finite x) = nat \<bar>k\<bar>"
    by (simp only: tenths32_def pb(1) k_def float32.case)
  have "100 \<le> nat \<bar>k\<bar>" if "10 \<le> x"
  proof -
    from that have "100 \<le> p" by (rule pb(3))
    then have "100 \<le> k" unfolding k_def by (rule round_away_bounds)
    then show ?thesis by simp
  qed
  then have pad: "replicate ((if fle (Finite 10) (Finite x) then 4 else 3)
         - length (fixed1 (nat \<bar>k\<bar>))) (CHR '' '') = []"
    by (intro pad_fixed1) auto
  have "dtostrf (fabs (fdiv (roundf (fmul (Finite x) (Finite 10))) (Finite 10)))
           (if fle (Finite 10) (Finite x) then 4 else 3) 1
        = dtostrf (Finite \<bar>y\<bar>) (if fle (Finite 10) (Finite x) then 4 else 3) 1"
    by (simp only: pb(1) roundf.simps k_def [symmetric] y(1) fabs.simps)
  also have "\<dots> = replicate ((if fle (Finite 10) (Finite x) then 4 else 3)
         - length (fixed1 (nat \<bar>k\<bar>))) (CHR '' '') @ fixed1 (nat \<bar>k\<bar>)"
    using y(2) by (intro dtostrf_near) simp_all
  finally show ?thesis by (simp only: pad t append_Nil)
qed


text \<open>
  The text of line 309 and its closing zero byte overrun the four bytes of \<^verbatim>\<open>outstr\<close>
  exactly when the text shows 10.0 or more.
\<close>

lemma outstr_overrun_fixed1: "outstr_overrun (fixed1 t) \<longleftrightarrow> 100 \<le> t"
  using length_fixed1_small [of t] length_fixed1_large [of t]
  by (cases "t < 100") (simp_all add: outstr_overrun_def outstr_size_def)

lemma line_309_overrun:
  assumes "- 4364 < x" "x < 4376"
  shows "outstr_overrun
           (dtostrf (fabs (fdiv (roundf (fmul (Finite x) (Finite 10))) (Finite 10)))
              (if fle (Finite 10) (Finite x) then 4 else 3) 1)
         \<longleftrightarrow> 100 \<le> tenths32 (Finite x)"
  by (simp only: line_309 [OF assms] outstr_overrun_fixed1)











end
